theory Spec2Isabelle
  imports Main "HOL-Library.Sublist"
begin

section \<open>Python string operations used by the program\<close>

text \<open>
  Text is a list of characters. Every delimiter the program looks for (the double quote,
  braces, the dash, carriage return and line feed) is a single ASCII character, and the
  program never inspects any other character for its value.
\<close>

datatype error = Exception string | ValueError string

definition dquote :: char where
  "dquote = CHR 0x22"

text \<open>\<^verbatim>\<open>sub in s\<close>: \<open>sub\<close> occurs in \<open>s\<close> as a contiguous piece.\<close>

fun py_in :: "string \<Rightarrow> string \<Rightarrow> bool" where
  "py_in sub [] = (sub = [])"
| "py_in sub (c # cs) = (prefix sub (c # cs) \<or> py_in sub cs)"

text \<open>\<^verbatim>\<open>s.startswith(p)\<close>.\<close>

definition startswith :: "string \<Rightarrow> string \<Rightarrow> bool" where
  "startswith s p = prefix p s"

text \<open>\<^verbatim>\<open>s.index(sub)\<close>: the position of the first occurrence; ValueError when there is none.\<close>

fun py_index :: "string \<Rightarrow> string \<Rightarrow> error + nat" where
  "py_index [] sub = (if sub = [] then Inr 0 else Inl (ValueError ''substring not found''))"
| "py_index (c # cs) sub =
     (if prefix sub (c # cs) then Inr 0
      else (case py_index cs sub of Inl e \<Rightarrow> Inl e | Inr i \<Rightarrow> Inr (Suc i)))"

text \<open>\<^verbatim>\<open>s.count(sub)\<close>: the number of non-overlapping occurrences, scanning from the left.\<close>

function py_count :: "string \<Rightarrow> string \<Rightarrow> nat" where
  "py_count [] sub = (if sub = [] then 1 else 0)"
| "py_count (c # cs) sub =
     (if sub = [] then length (c # cs) + 1
      else if prefix sub (c # cs) then 1 + py_count (drop (length sub) (c # cs)) sub
      else py_count cs sub)"
  by pat_completeness auto
termination
  by (relation "measure (\<lambda>(s, sub). length s)") auto

text \<open>
  \<^verbatim>\<open>s.split(sep)\<close> for a non-empty separator (the program only ever passes the constant
  \<open>newline\<close>): the pieces between the occurrences of \<open>sep\<close>, found from the left;
  never an empty list.
\<close>

function py_split :: "string \<Rightarrow> string \<Rightarrow> string list" where
  "py_split [] sep = [[]]"
| "py_split (c # cs) sep =
     (if sep \<noteq> [] \<and> prefix sep (c # cs)
      then [] # py_split (drop (length sep) (c # cs)) sep
      else (case py_split cs sep of
              [] \<Rightarrow> [[c]]
            | l # ls \<Rightarrow> (c # l) # ls))"
  by pat_completeness auto
termination
  by (relation "measure (\<lambda>(s, sep). length s)") auto

text \<open>
  Slices. \<^verbatim>\<open>s[i:-1]\<close> drops the last character and then the first \<open>i\<close>;
  \<^verbatim>\<open>s[1:]\<close> is \<open>drop 1 s\<close> and \<^verbatim>\<open>s[:i]\<close> is \<open>take i s\<close>. A slice never raises.
\<close>

definition slice_to_last :: "string \<Rightarrow> nat \<Rightarrow> string" where
  "slice_to_last s i = drop i (butlast s)"

text \<open>
  \<^verbatim>\<open>template.format(*args)\<close> for the templates of this program: each replacement field is
  \<^verbatim>\<open>{d}\<close> with one digit \<open>d\<close>, always below the number of arguments passed, and no
  template has an escaped or unmatched brace. The inserted text is not scanned again.
\<close>

definition digit_value :: "char \<Rightarrow> nat option" where
  "digit_value c =
     (let n = (of_char c :: nat) in if 48 \<le> n \<and> n \<le> 57 then Some (n - 48) else None)"

fun py_format :: "string \<Rightarrow> string list \<Rightarrow> string" where
  "py_format (a # b # c # cs) args =
     (if a = CHR ''{'' \<and> c = CHR ''}'' \<and> digit_value b \<noteq> None \<and> the (digit_value b) < length args
      then args ! the (digit_value b) @ py_format cs args
      else a # py_format (b # c # cs) args)"
| "py_format cs args = cs"

section \<open>Constants and data\<close>

definition flag :: string where
  "flag = ''UpdateVirtualBoxMachinesFinalSignalOperationIsComplete''"

definition newline :: string where
  "newline = [CHR 0x0D, CHR 0x0A]"

text \<open>
  The dictionaries of the program have fixed keys, set where they are built
  (\<^verbatim>\<open>parse_arguments\<close>, \<^verbatim>\<open>parse_machines\<close>, \<^verbatim>\<open>discover_package_managers\<close>), so a
  lookup never misses; they are records here. The process-wide \<^verbatim>\<open>verbose\<close> is set together
  with \<^verbatim>\<open>arguments["verbose"]\<close> and never changes afterwards; it is read from the record.
\<close>

record args =
  username :: string
  password :: string
  remove :: bool
  shutdown :: bool
  verbose :: bool

record vm =
  name :: string
  uuid :: string

record managers =
  apt :: bool
  snap :: bool

section \<open>Reading the tool's text\<close>

text \<open>\<^verbatim>\<open>find_property_value\<close>: the loop over the lines, then the function.\<close>

fun find_in_lines :: "string list \<Rightarrow> string \<Rightarrow> error + string" where
  "find_in_lines [] property =
     Inl (Exception (py_format ''find_property_value() - Property '{0}' not found'' [property]))"
| "find_in_lines (line # rest) property =
     (if startswith line property
      then (case py_index line [dquote] of
              Inl e \<Rightarrow> Inl e
            | Inr i \<Rightarrow> Inr (slice_to_last line (i + 1)))
      else find_in_lines rest property)"

definition find_property_value :: "string \<Rightarrow> string \<Rightarrow> error + string" where
  "find_property_value vminfo property = find_in_lines (py_split vminfo newline) property"

text \<open>
  \<^verbatim>\<open>parse_machines\<close>. The function returns the list at a blank line, raises at a line that
  fails the counts, and when the loop runs off the last line it ends without a
  \<^verbatim>\<open>return\<close>, which in Python yields \<^verbatim>\<open>None\<close>: the result is \<open>Inr None\<close> then.
\<close>

definition valid_line :: "string \<Rightarrow> bool" where
  "valid_line line \<longleftrightarrow>
     2 = py_count line [dquote] \<and>
     4 = py_count line ''-'' \<and>
     1 = py_count line ''{'' \<and>
     1 = py_count line ''}''"

definition vm_of_line :: "string \<Rightarrow> error + vm" where
  "vm_of_line line0 =
     (let line = drop 1 line0 in
      case py_index line [dquote] of
        Inl e \<Rightarrow> Inl e
      | Inr i \<Rightarrow> Inr \<lparr>name = take i line, uuid = slice_to_last line (i + 3)\<rparr>)"

fun parse_lines :: "string list \<Rightarrow> vm list \<Rightarrow> error + vm list option" where
  "parse_lines [] vms = Inr None"
| "parse_lines (line # rest) vms =
     (if [] = line then Inr (Some vms)
      else if \<not> valid_line line
      then Inl (Exception ''Command 'list vms' returned unknown format'')
      else (case vm_of_line line of
              Inl e \<Rightarrow> Inl e
            | Inr v \<Rightarrow> parse_lines rest (vms @ [v])))"

definition parse_machines :: "string \<Rightarrow> error + vm list option" where
  "parse_machines list = parse_lines (py_split list newline) []"

section \<open>Building the guest command\<close>

definition get_update_command :: "managers \<Rightarrow> args \<Rightarrow> string" where
  "get_update_command managers args =
     (let command = [];
          command = (if apt managers
                     then (let command = command @ ''{0} apt update && {0} apt upgrade -y && ''
                           in if remove args then command @ ''{0} apt autoremove -y && ''
                              else command)
                     else command);
          command = (if snap managers then command @ ''{0} snap refresh && '' else command);
          command = command @ py_format ''echo {0}'' [flag]
      in py_format command [py_format ''echo {0} | sudo -S'' [password args]])"

section \<open>The external tool and what the program does to the world\<close>

text \<open>
  The control utility is outside the program: \<^verbatim>\<open>vboxmanage\<close> starts it with a command line
  and gets back its standard output followed by its standard error, decoded. Here the
  utility is a function \<open>respond\<close> from what the program has done so far and the command
  line to the captured text, so its answers may change from one call to the next in any
  way. What the program does is recorded, in order, as a trace of events: a command line
  run, a \<^verbatim>\<open>time.sleep\<close> of so many seconds, a line printed by \<^verbatim>\<open>print_if_verbose\<close>.
\<close>

datatype event = Exec string | Sleep nat | Print string

type_synonym trace = "event list"

record world =
  platform :: string
  respond :: "trace \<Rightarrow> string \<Rightarrow> string"

definition get_host_os :: "world \<Rightarrow> string" where
  "get_host_os w = (if ''win32'' = platform w then ''Windows'' else ''Linux'')"

definition binary :: "world \<Rightarrow> string" where
  \<open>binary w =
     (if ''Windows'' = get_host_os w
      then ''"C:/Program Files/Oracle/VirtualBox/VBoxManage.exe"''
      else ''VBoxManage'')\<close>

definition vboxmanage :: "world \<Rightarrow> string \<Rightarrow> trace \<Rightarrow> string \<times> trace" where
  "vboxmanage w command tr =
     (respond w tr (binary w @ '' '' @ command), tr @ [Exec (binary w @ '' '' @ command)])"

definition sleep :: "nat \<Rightarrow> trace \<Rightarrow> trace" where
  "sleep n tr = tr @ [Sleep n]"

definition print_if_verbose :: "args \<Rightarrow> string \<Rightarrow> trace \<Rightarrow> trace" where
  "print_if_verbose args message tr = (if verbose args then tr @ [Print message] else tr)"

definition run_command :: "world \<Rightarrow> vm \<Rightarrow> args \<Rightarrow> string \<Rightarrow> trace \<Rightarrow> string \<times> trace" where
  \<open>run_command w vm args command tr =
     (let vbox_command =
            py_format (''guestcontrol {0} --username {1} --password {2}'' @
                       ''run --exe "/bin/sh" -- "/bin/sh" "-c" "{3}"'' @
                       '''')
              [uuid vm, username args, password args, command]
      in vboxmanage w vbox_command tr)\<close>

text \<open>
  \<^verbatim>\<open>discover_package_managers\<close>: the loop runs over the two keys of the dictionary in the
  order they were inserted, \<^verbatim>\<open>apt\<close> and then \<^verbatim>\<open>snap\<close>; a manager counts as present when
  the response is a non-empty text.
\<close>

definition discover_package_managers :: "world \<Rightarrow> vm \<Rightarrow> args \<Rightarrow> trace \<Rightarrow> managers \<times> trace" where
  "discover_package_managers w vm args tr =
     (let managers = \<lparr>apt = False, snap = False\<rparr>;
          (response, tr) = run_command w vm args (py_format ''which {0}'' [''apt'']) tr;
          managers = (if response \<noteq> [] then managers\<lparr>apt := True\<rparr> else managers);
          (response, tr) = run_command w vm args (py_format ''which {0}'' [''snap'']) tr;
          managers = (if response \<noteq> [] then managers\<lparr>snap := True\<rparr> else managers)
      in (managers, tr))"

definition run_update_command :: "world \<Rightarrow> vm \<Rightarrow> args \<Rightarrow> trace \<Rightarrow> string \<times> trace" where
  "run_update_command w vm args tr =
     (let (managers, tr) = discover_package_managers w vm args tr;
          command = get_update_command managers args
      in run_command w vm args command tr)"

section \<open>The update of one machine\<close>

text \<open>
  \<^verbatim>\<open>update\<close> is one function in the program; here it is cut at its loops. First the part
  up to the start of the machine: it raises, returns, or goes on with the response of the
  start command.
\<close>

datatype 'a flow = Raise error | Return bool | Next 'a

definition showvminfo :: "vm \<Rightarrow> string" where
  "showvminfo vm = py_format ''showvminfo {0} --machinereadable'' [uuid vm]"

definition check_and_boot :: "world \<Rightarrow> vm \<Rightarrow> args \<Rightarrow> trace \<Rightarrow> string flow \<times> trace" where
  "check_and_boot w vm args tr =
     (let (vm_info, tr) = vboxmanage w (showvminfo vm) tr in
      case find_property_value vm_info ''VMState'' of
        Inl e \<Rightarrow> (Raise e, tr)
      | Inr state \<Rightarrow>
          if ''poweroff'' \<noteq> state then (Return False, tr)
          else (case find_property_value vm_info ''ostype'' of
                  Inl e \<Rightarrow> (Raise e, tr)
                | Inr ostype \<Rightarrow>
                    if ''Windows'' = ostype then (Return False, tr)
                    else
                      let tr = print_if_verbose args ''Starting machine'' tr;
                          (response, tr) = vboxmanage w (py_format ''startvm {0}'' [uuid vm]) tr;
                          tr = sleep 60 tr
                      in if \<not> py_in ''successfully started'' response then (Return False, tr)
                         else (Next response, print_if_verbose args ''Machine started successfully'' tr)))"

text \<open>
  The loop that runs the update command. Its state is the three variables of the program
  and the trace.
\<close>

function dispatch_loop ::
  "world \<Rightarrow> vm \<Rightarrow> args \<Rightarrow> bool \<Rightarrow> nat \<Rightarrow> string \<Rightarrow> trace \<Rightarrow> bool \<times> nat \<times> string \<times> trace" where
  "dispatch_loop w vm args error_detected attempt_count response tr =
     (if error_detected then (error_detected, attempt_count, response, tr)
      else
        let attempt_count = attempt_count + 1 in
        if 5 < attempt_count then (True, attempt_count, response, tr)
        else
          let (response, tr) = run_update_command w vm args tr in
          if py_in ''error:'' response
          then dispatch_loop w vm args error_detected attempt_count response (sleep 30 tr)
          else (error_detected, attempt_count, response, tr))"
  by pat_completeness auto
termination
  by (relation "measure (\<lambda>(w, vm, args, e, n, r, t). 6 - n)") auto

text \<open>The loop that waits for the update to finish.\<close>

function completion_loop :: "string \<Rightarrow> bool \<Rightarrow> nat \<Rightarrow> trace \<Rightarrow> bool \<times> nat \<times> trace" where
  "completion_loop response error_detected attempt_count tr =
     (if error_detected then (error_detected, attempt_count, tr)
      else
        let attempt_count = attempt_count + 1 in
        if 20 < attempt_count then (True, attempt_count, tr)
        else if py_in flag response then (error_detected, attempt_count, tr)
        else completion_loop response error_detected attempt_count (sleep 30 tr))"
  by pat_completeness auto
termination
  by (relation "measure (\<lambda>(r, e, n, t). 21 - n)") auto

text \<open>
  From the acknowledged start to the power button and the pause after it: the two loops,
  the narration, the signal. The result is \<open>error_detected\<close> and the trace.
\<close>

definition acpipowerbutton :: "vm \<Rightarrow> string" where
  "acpipowerbutton vm = py_format ''controlvm {0} acpipowerbutton'' [uuid vm]"

definition update_stages :: "world \<Rightarrow> vm \<Rightarrow> args \<Rightarrow> string \<Rightarrow> trace \<Rightarrow> bool \<times> trace" where
  "update_stages w vm args response tr =
     (let attempt_count = 0;
          error_detected = False;
          tr = print_if_verbose args ''Waiting to run update command'' tr;
          (error_detected, attempt_count, response, tr) =
             dispatch_loop w vm args error_detected attempt_count response tr;
          attempt_count = 0;
          tr = print_if_verbose args
                 (py_format ''Update command {0}'' [if error_detected then ''failed'' else ''run'']) tr;
          tr = print_if_verbose args ''Waiting for update to finish'' tr;
          (error_detected, attempt_count, tr) =
             completion_loop response error_detected attempt_count tr;
          tr = print_if_verbose args
                 (py_format ''Update {0}'' [if error_detected then ''timed out'' else ''completed'']) tr;
          tr = print_if_verbose args ''Shutting down machine'' tr;
          (_, tr) = vboxmanage w (acpipowerbutton vm) tr;
          tr = sleep 30 tr
      in (error_detected, tr))"

text \<open>
  The wait for the machine to be off is \<^verbatim>\<open>while True\<close>: it may never end, and then the
  function has no result (\<open>None\<close>).
\<close>

partial_function (option) wait_for_poweroff ::
  "world \<Rightarrow> vm \<Rightarrow> trace \<Rightarrow> ((error + unit) \<times> trace) option" where
  "wait_for_poweroff w vm tr =
     (let (vm_info, tr) = vboxmanage w (showvminfo vm) tr in
      case find_property_value vm_info ''VMState'' of
        Inl e \<Rightarrow> Some (Inl e, tr)
      | Inr state \<Rightarrow>
          if ''poweroff'' = state then Some (Inr (), tr)
          else wait_for_poweroff w vm (sleep 15 tr))"

declare wait_for_poweroff.simps [code]

definition update :: "world \<Rightarrow> vm \<Rightarrow> args \<Rightarrow> trace \<Rightarrow> ((error + bool) \<times> trace) option" where
  "update w vm args tr =
     (case check_and_boot w vm args tr of
        (Raise e, tr) \<Rightarrow> Some (Inl e, tr)
      | (Return b, tr) \<Rightarrow> Some (Inr b, tr)
      | (Next response, tr) \<Rightarrow>
          let (error_detected, tr) = update_stages w vm args response tr in
          (case wait_for_poweroff w vm tr of
             None \<Rightarrow> None
           | Some (Inl e, tr) \<Rightarrow> Some (Inl e, tr)
           | Some (Inr _, tr) \<Rightarrow> Some (Inr True, print_if_verbose args ''Shutdown complete'' tr)))"

text \<open>
  What \<^verbatim>\<open>main\<close> does with one machine of the list: it keeps the value of \<^verbatim>\<open>update\<close> as
  \<^verbatim>\<open>success\<close> and narrates it. The two outcomes of a machine are named as the
  specification names them.
\<close>

datatype outcome = Updated | Failed

definition outcome_of :: "bool \<Rightarrow> outcome" where
  "outcome_of success = (if success then Updated else Failed)"

definition update_and_report ::
  "world \<Rightarrow> vm \<Rightarrow> args \<Rightarrow> trace \<Rightarrow> ((error + outcome) \<times> trace) option" where
  "update_and_report w vm args tr =
     (case update w vm args tr of
        None \<Rightarrow> None
      | Some (Inl e, tr) \<Rightarrow> Some (Inl e, tr)
      | Some (Inr success, tr) \<Rightarrow>
          Some (Inr (outcome_of success),
                print_if_verbose args
                  (if success then ''Update successful'' else ''Update failed'') tr))"

section \<open>Texts to state the properties with\<close>

text \<open>
  \<^verbatim>\<open>sep.join(ls)\<close>, and a line of the machine information: a key, the equals sign and the
  value between double quotes.
\<close>

fun join :: "string \<Rightarrow> string list \<Rightarrow> string" where
  "join sep [] = []"
| "join sep [l] = l"
| "join sep (l # m # ls) = l @ sep @ join sep (m # ls)"

definition kv_line :: "string \<times> string \<Rightarrow> string" where
  "kv_line kv = fst kv @ ''='' @ [dquote] @ snd kv @ [dquote]"

text \<open>
  The guest command in the words of the specification: the privilege wrapper that pipes
  the password to the elevation prompt, and the invocations of the managers that are
  present, in their order.
\<close>

definition sudo_prefix :: "args \<Rightarrow> string" where
  "sudo_prefix args = ''echo '' @ password args @ '' | sudo -S''"

definition manager_invocations :: "managers \<Rightarrow> args \<Rightarrow> string list" where
  "manager_invocations managers args =
     (if apt managers
      then [''apt update'', ''apt upgrade -y''] @
           (if remove args then [''apt autoremove -y''] else [])
      else []) @
     (if snap managers then [''snap refresh''] else [])"

text \<open>
  The command lines the program runs: any command behind the binary, and a guest command
  as \<^verbatim>\<open>run_command\<close> formats it (the password is followed by \<^verbatim>\<open>run\<close> without a space, as
  the two adjacent literals of the source have none between them). An event is a dispatch
  of the update command when it runs the guest command line of an update command, for any
  of the four sets of managers.
\<close>

definition vbox_line :: "world \<Rightarrow> string \<Rightarrow> string" where
  "vbox_line w command = binary w @ '' '' @ command"

definition guest_line :: "world \<Rightarrow> vm \<Rightarrow> args \<Rightarrow> string \<Rightarrow> string" where
  \<open>guest_line w vm args command =
     vbox_line w (''guestcontrol '' @ uuid vm @ '' --username '' @ username args @
       '' --password '' @ password args @ ''run --exe "/bin/sh" -- "/bin/sh" "-c" "'' @
       command @ ''"'')\<close>

definition is_update_dispatch :: "world \<Rightarrow> vm \<Rightarrow> args \<Rightarrow> event \<Rightarrow> bool" where
  "is_update_dispatch w vm args e \<longleftrightarrow>
     e \<in> set (map (\<lambda>m. Exec (guest_line w vm args (get_update_command m args)))
               [\<lparr>apt = False, snap = False\<rparr>, \<lparr>apt = False, snap = True\<rparr>,
                \<lparr>apt = True, snap = False\<rparr>, \<lparr>apt = True, snap = True\<rparr>])"

text \<open>
  What a query of the machine information would report after the trace \<open>tr\<close>: the power
  state and the guest type. The trace after \<open>n\<close> polls of the shutdown wait that did not
  end it; a poll does not end the wait when it reports a state other than \<^verbatim>\<open>poweroff\<close>.
\<close>

definition power_state :: "world \<Rightarrow> vm \<Rightarrow> trace \<Rightarrow> error + string" where
  "power_state w vm tr =
     find_property_value (respond w tr (vbox_line w (showvminfo vm))) ''VMState''"

definition os_type :: "world \<Rightarrow> vm \<Rightarrow> trace \<Rightarrow> error + string" where
  "os_type w vm tr =
     find_property_value (respond w tr (vbox_line w (showvminfo vm))) ''ostype''"

definition polled :: "world \<Rightarrow> vm \<Rightarrow> nat \<Rightarrow> trace \<Rightarrow> trace" where
  "polled w vm n tr = tr @ concat (replicate n [Exec (vbox_line w (showvminfo vm)), Sleep 15])"

definition still_on :: "world \<Rightarrow> vm \<Rightarrow> trace \<Rightarrow> bool" where
  "still_on w vm tr =
     (case power_state w vm tr of Inl e \<Rightarrow> False | Inr state \<Rightarrow> state \<noteq> ''poweroff'')"

definition off_after :: "world \<Rightarrow> vm \<Rightarrow> trace \<Rightarrow> (error + unit) \<times> trace \<Rightarrow> bool" where
  "off_after w vm tr y \<longleftrightarrow>
     (\<exists>n. (\<forall>k<n. still_on w vm (polled w vm k tr)) \<and>
          \<not> still_on w vm (polled w vm n tr) \<and>
          snd y = polled w vm n tr @ [Exec (vbox_line w (showvminfo vm))] \<and>
          fst y = (case power_state w vm (polled w vm n tr) of
                     Inl e \<Rightarrow> Inl e
                   | Inr s \<Rightarrow> Inr ()))"

text \<open>The lines that \<^verbatim>\<open>print_if_verbose\<close> printed, in order.\<close>

definition narration :: "trace \<Rightarrow> string list" where
  "narration tr = concat (map (\<lambda>e. case e of Print s \<Rightarrow> [s] | _ \<Rightarrow> []) tr)"

section \<open>Machines and stubs of the tool to run the program on\<close>

definition machine :: vm where
  "machine = \<lparr>name = ''web'', uuid = ''1-2-3-4-5''\<rparr>"

definition options :: args where
  "options = \<lparr>username = ''user'', password = ''secret'', remove = False, shutdown = False,
               verbose = True\<rparr>"

definition quiet :: args where
  "quiet = options\<lparr>verbose := False\<rparr>"

definition machine_info :: "string \<Rightarrow> string \<Rightarrow> string" where
  \<open>machine_info state ostype =
     ''name="web"'' @ newline @ ''ostype="'' @ ostype @ ''"'' @ newline @
     ''VMState="'' @ state @ ''"'' @ newline @
     ''VMStateChangeTime="2020-01-01T00:00:00"'' @ newline\<close>

text \<open>
  A tool that always reports the same power state and guest type, acknowledges every
  start, and answers every guest command with \<open>reply\<close>.
\<close>

definition stub :: "string \<Rightarrow> string \<Rightarrow> string \<Rightarrow> world" where
  \<open>stub state ostype reply =
     \<lparr>platform = ''linux'',
      respond = (\<lambda>tr c.
        if prefix ''VBoxManage showvminfo'' c then machine_info state ostype
        else if prefix ''VBoxManage startvm'' c
        then ''VM "web" has been successfully started.''
        else if prefix ''VBoxManage guestcontrol'' c then reply
        else [])\<rparr>\<close>

definition failing_guest :: world where
  "failing_guest =
     stub ''poweroff'' ''Ubuntu (64-bit)''
       ''VBoxManage: error: The guest execution service is not ready (yet)''"

definition silent_guest :: world where
  "silent_guest = stub ''poweroff'' ''Ubuntu (64-bit)'' ''Reading package lists...''"

definition ready_guest :: world where
  "ready_guest = stub ''poweroff'' ''Ubuntu (64-bit)'' (flag @ newline)"

definition windows_guest :: world where
  "windows_guest = stub ''poweroff'' ''Windows 10 (64-bit)'' (flag @ newline)"

text \<open>
  A tool whose machine, once the power button was pressed, still reports \<^verbatim>\<open>running\<close> at the
  first two polls of the wait and \<^verbatim>\<open>poweroff\<close> from the third; the guest has no package
  manager and runs the command at once.
\<close>

definition slow_shutdown :: world where
  \<open>slow_shutdown =
     \<lparr>platform = ''linux'',
      respond = (\<lambda>tr c.
        if prefix ''VBoxManage showvminfo'' c
        then machine_info
               (if Sleep 30 \<in> set tr \<and> length (filter (\<lambda>e. e = Sleep 15) tr) < 2
                then ''running'' else ''poweroff'')
               ''Ubuntu (64-bit)''
        else if prefix ''VBoxManage startvm'' c
        then ''VM "web" has been successfully started.''
        else if prefix ''VBoxManage guestcontrol'' c \<and> \<not> py_in ''which'' c
        then flag @ newline
        else [])\<rparr>\<close>

definition after_stages :: trace where
  "after_stages =
     [Exec ''VBoxManage showvminfo 1-2-3-4-5 --machinereadable'',
      Exec ''VBoxManage startvm 1-2-3-4-5'', Sleep 60,
      Exec (guest_line slow_shutdown machine quiet ''which apt''),
      Exec (guest_line slow_shutdown machine quiet ''which snap''),
      Exec (guest_line slow_shutdown machine quiet
             (get_update_command \<lparr>apt = False, snap = False\<rparr> quiet)),
      Exec ''VBoxManage controlvm 1-2-3-4-5 acpipowerbutton'', Sleep 30]"

section \<open>Facts about the string operations\<close>

lemma py_count_single: "py_count s [c] = length (filter ((=) c) s)"
  by (induction s) auto

lemma py_index_single_found: "c \<in> set s \<Longrightarrow> \<exists>i. py_index s [c] = Inr i"
  by (induction s) auto

section \<open>The machine listing\<close>

text \<open>A line that passes the counts always yields a machine: the second quote is found.\<close>

lemma valid_line_vm:
  assumes "valid_line l"
  shows "\<exists>v. vm_of_line l = Inr v"
proof -
  from assms have "length (filter ((=) dquote) l) = 2"
    by (simp add: valid_line_def py_count_single)
  then have "filter ((=) dquote) (drop 1 l) \<noteq> []"
    by (cases l) (auto split: if_splits)
  then have "dquote \<in> set (drop 1 l)"
    by (auto simp: filter_empty_conv)
  then obtain i where "py_index (drop 1 l) [dquote] = Inr i"
    using py_index_single_found by blast
  then show ?thesis
    by (simp add: vm_of_line_def Let_def)
qed

lemma parse_lines_valid_prefix:
  "\<forall>l \<in> set pre. l \<noteq> [] \<and> valid_line l \<Longrightarrow>
   \<exists>vs. map vm_of_line pre = map Inr vs \<and>
        parse_lines (pre @ rest) vms = parse_lines rest (vms @ vs)"
proof (induction pre arbitrary: vms)
  case Nil
  then show ?case by simp
next
  case (Cons l pre)
  then obtain v where v: "vm_of_line l = Inr v"
    using valid_line_vm[of l] by auto
  from Cons.prems have "\<forall>l \<in> set pre. l \<noteq> [] \<and> valid_line l"
    by simp
  from Cons.IH[OF this, of "vms @ [v]"] obtain vs where
    "map vm_of_line pre = map Inr vs"
    "parse_lines (pre @ rest) (vms @ [v]) = parse_lines rest ((vms @ [v]) @ vs)"
    by blast
  then have "map vm_of_line (l # pre) = map Inr (v # vs) \<and>
    parse_lines ((l # pre) @ rest) vms = parse_lines rest (vms @ (v # vs))"
    using Cons.prems v by auto
  then show ?case by blast
qed

lemma parse_lines_Some_blank: "parse_lines ls vms = Inr (Some r) \<Longrightarrow> [] \<in> set ls"
  by (induction ls arbitrary: vms) (auto split: if_splits sum.splits)

text \<open>
  What the two slices take from a line of the tool's layout, a quoted name, a space and
  the identifier in braces: the name and the identifier.
\<close>

lemma py_index_first: "c \<notin> set xs \<Longrightarrow> py_index (xs @ c # ys) [c] = Inr (length xs)"
  by (induction xs) auto

lemma vm_of_line_layout:
  assumes "dquote \<notin> set n"
  shows "vm_of_line ([dquote] @ n @ [dquote] @ '' {'' @ u @ ''}'') = Inr \<lparr>name = n, uuid = u\<rparr>"
proof -
  have "py_index (n @ dquote # '' {'' @ u @ ''}'') [dquote] = Inr (length n)"
    using assms by (rule py_index_first)
  moreover have "butlast (n @ dquote # CHR '' '' # CHR ''{'' # u @ ''}'') =
      n @ dquote # CHR '' '' # CHR ''{'' # u"
    by (simp add: butlast_append)
  ultimately show ?thesis
    by (simp add: vm_of_line_def slice_to_last_def)
qed

text \<open>
  Claim C6. The lines are read in order. While they are non-blank and pass the counts
  (two quotes, four dashes, one opening and one closing brace), the parser goes on; at the
  first non-blank line that fails the counts it raises the format exception and returns no
  list; at the first blank line it returns the machines of the lines before it, in their
  order.
\<close>

theorem parse_machines_fail_fast_blank_terminates:
  assumes "\<forall>l \<in> set pre. l \<noteq> [] \<and> valid_line l"
  shows "(py_split listing newline = pre @ bad # rest \<and> bad \<noteq> [] \<and> \<not> valid_line bad \<longrightarrow>
            parse_machines listing = Inl (Exception ''Command 'list vms' returned unknown format''))
       \<and> (py_split listing newline = pre @ [] # rest \<longrightarrow>
            (\<exists>vms. parse_machines listing = Inr (Some vms) \<and> map vm_of_line pre = map Inr vms))"
proof -
  have *: "\<exists>vs. map vm_of_line pre = map Inr vs \<and>
      parse_lines (pre @ tl) [] = parse_lines tl ([] @ vs)" for tl
    using assms by (rule parse_lines_valid_prefix)
  show ?thesis
  proof (intro conjI impI)
    assume "py_split listing newline = pre @ bad # rest \<and> bad \<noteq> [] \<and> \<not> valid_line bad"
    then show "parse_machines listing = Inl (Exception ''Command 'list vms' returned unknown format'')"
      using *[of "bad # rest"] by (auto simp: parse_machines_def)
  next
    assume "py_split listing newline = pre @ [] # rest"
    then show "\<exists>vms. parse_machines listing = Inr (Some vms) \<and> map vm_of_line pre = map Inr vms"
      using *[of "[] # rest"] by (auto simp: parse_machines_def)
  qed
qed

theorem parse_machines_fail_fast_blank_terminates_witness:
  \<open>valid_line ''"a" {1-2-3-4-5}''
   \<and> parse_machines (''"a" {1-2-3-4-5}'' @ newline @ ''"b" 1-2-3-4-6'' @ newline) =
       Inl (Exception ''Command 'list vms' returned unknown format'')
   \<and> parse_machines (''"a" {1-2-3-4-5}'' @ newline @ newline @ ''"b" 1-2-3-4-6'') =
       Inr (Some [\<lparr>name = ''a'', uuid = ''1-2-3-4-5''\<rparr>])\<close>
proof -
  let ?l = \<open>''"a" {1-2-3-4-5}''\<close>
  let ?bad = \<open>''"b" 1-2-3-4-6''\<close>
  have v: "valid_line ?l"
    by (simp add: valid_line_def dquote_def)
  then have h: "\<forall>l \<in> set [?l]. l \<noteq> [] \<and> valid_line l"
    by simp
  have bad: "?bad \<noteq> [] \<and> \<not> valid_line ?bad"
    by (simp add: valid_line_def dquote_def)
  have s1: "py_split (?l @ newline @ ?bad @ newline) newline = [?l] @ ?bad # [[]]"
    by (simp add: newline_def)
  have s2: "py_split (?l @ newline @ newline @ ?bad) newline = [?l] @ [] # [?bad]"
    by (simp add: newline_def)
  have l: "vm_of_line ?l = Inr \<lparr>name = ''a'', uuid = ''1-2-3-4-5''\<rparr>"
    by (simp add: vm_of_line_def slice_to_last_def dquote_def)
  have "parse_machines (?l @ newline @ ?bad @ newline) =
      Inl (Exception ''Command 'list vms' returned unknown format'')"
    using parse_machines_fail_fast_blank_terminates[OF h,
        where listing = "?l @ newline @ ?bad @ newline" and bad = ?bad and rest = "[[]]"]
      s1 bad by blast
  moreover have "parse_machines (?l @ newline @ newline @ ?bad) =
      Inr (Some [\<lparr>name = ''a'', uuid = ''1-2-3-4-5''\<rparr>])"
    using parse_machines_fail_fast_blank_terminates[OF h,
        where listing = "?l @ newline @ newline @ ?bad" and rest = "[?bad]"]
      s2 l by auto
  ultimately show ?thesis
    using v by blast
qed

text \<open>
  Claim C9. The parser returns a list only at a blank line. When every line of the input
  is non-blank and passes the counts, as when the text does not end with the newline
  sequence, the loop runs off the end and the function returns \<open>None\<close>, not the
  machines it has parsed.
\<close>

theorem parse_machines_without_blank_line_is_None:
  "((\<forall>l \<in> set (py_split listing newline). l \<noteq> [] \<and> valid_line l) \<longrightarrow>
      parse_machines listing = Inr None)
   \<and> (\<forall>vms. parse_machines listing = Inr (Some vms) \<longrightarrow> [] \<in> set (py_split listing newline))"
proof (intro conjI impI allI)
  assume "\<forall>l \<in> set (py_split listing newline). l \<noteq> [] \<and> valid_line l"
  from parse_lines_valid_prefix[OF this, of "[]" "[]"]
  show "parse_machines listing = Inr None"
    by (auto simp: parse_machines_def)
next
  fix vms
  assume "parse_machines listing = Inr (Some vms)"
  then show "[] \<in> set (py_split listing newline)"
    unfolding parse_machines_def by (rule parse_lines_Some_blank)
qed

theorem parse_machines_without_blank_line_is_None_witness:
  \<open>py_split (''"a" {1-2-3-4-5}'' @ [CHR 0x0A] @ ''"b" {1-2-3-4-6}'') newline =
     [''"a" {1-2-3-4-5}'' @ [CHR 0x0A] @ ''"b" {1-2-3-4-6}'']
   \<and> py_split ''"a" {1-2-3-4-5}'' newline = [''"a" {1-2-3-4-5}'']
   \<and> valid_line ''"a" {1-2-3-4-5}''
   \<and> parse_machines ''"a" {1-2-3-4-5}'' = Inr None
   \<and> parse_machines (''"a" {1-2-3-4-5}'' @ newline) = Inr (Some [\<lparr>name = ''a'', uuid = ''1-2-3-4-5''\<rparr>])
   \<and> [] \<in> set (py_split (''"a" {1-2-3-4-5}'' @ newline) newline)\<close>
proof -
  let ?l = \<open>''"a" {1-2-3-4-5}''\<close>
  have s0: \<open>py_split (?l @ [CHR 0x0A] @ ''"b" {1-2-3-4-6}'') newline =
      [?l @ [CHR 0x0A] @ ''"b" {1-2-3-4-6}'']\<close>
    by (simp add: newline_def)
  have s: "py_split ?l newline = [?l]"
    by (simp add: newline_def)
  have v: "valid_line ?l"
    by (simp add: valid_line_def dquote_def)
  have p: "parse_machines (?l @ newline) = Inr (Some [\<lparr>name = ''a'', uuid = ''1-2-3-4-5''\<rparr>])"
    by (simp add: parse_machines_def newline_def valid_line_def vm_of_line_def
        slice_to_last_def dquote_def)
  have "parse_machines ?l = Inr None"
    using parse_machines_without_blank_line_is_None[of ?l] s v by simp
  moreover have "[] \<in> set (py_split (?l @ newline) newline)"
    using parse_machines_without_blank_line_is_None[of "?l @ newline"] p by blast
  ultimately show ?thesis
    using s0 s v p by blast
qed

section \<open>The machine information\<close>

lemma py_split_line:
  "\<not> py_in newline l \<Longrightarrow> py_split (l @ newline @ rest) newline = l # py_split rest newline"
proof (induction l)
  case Nil
  then show ?case by (simp add: newline_def)
next
  case (Cons c l)
  then have "\<not> prefix newline (c # l @ newline @ rest)"
    by (cases l) (auto simp: newline_def)
  with Cons show ?case by (simp add: newline_def)
qed

lemma py_split_last: "\<not> py_in newline l \<Longrightarrow> py_split l newline = [l]"
proof (induction l)
  case Nil
  then show ?case by simp
next
  case (Cons c l)
  then show ?case by (auto simp: newline_def)
qed

lemma py_split_join:
  "\<forall>l \<in> set ls. \<not> py_in newline l \<Longrightarrow> ls \<noteq> [] \<Longrightarrow> py_split (join newline ls) newline = ls"
proof (induction ls rule: induct_list012)
  case (3 l m ls)
  then show ?case by (simp add: py_split_line)
qed (simp_all add: py_split_last)

lemma py_split_join_newline:
  "\<forall>l \<in> set ls. \<not> py_in newline l \<Longrightarrow> ls \<noteq> [] \<Longrightarrow>
   py_split (join newline ls @ newline) newline = ls @ [[]]"
proof (induction ls rule: induct_list012)
  case (2 l)
  then show ?case using py_split_line[of l "[]"] by simp
next
  case (3 l m ls)
  then show ?case by (simp add: py_split_line)
qed simp_all

lemma kv_line_value:
  assumes "dquote \<notin> set (fst kv)"
  shows "py_index (kv_line kv) [dquote] = Inr (length (fst kv) + 1) \<and>
         slice_to_last (kv_line kv) (length (fst kv) + 1 + 1) = snd kv"
proof -
  have "dquote \<notin> set (fst kv @ ''='')"
    using assms by (simp add: dquote_def)
  from py_index_first[OF this, of "snd kv @ [dquote]"]
  have "py_index (kv_line kv) [dquote] = Inr (length (fst kv) + 1)"
    by (simp add: kv_line_def)
  moreover have "butlast (kv_line kv) = fst kv @ ''='' @ [dquote] @ snd kv"
    by (simp add: kv_line_def butlast_append)
  ultimately show ?thesis by (simp add: slice_to_last_def)
qed

lemma find_in_lines_first:
  assumes "i < length ls" "startswith (ls ! i) q" "\<forall>j<i. \<not> startswith (ls ! j) q"
  shows "find_in_lines (ls @ extra) q = find_in_lines [ls ! i] q"
  using assms
proof (induction ls arbitrary: i)
  case Nil
  then show ?case by simp
next
  case (Cons l ls)
  show ?case
  proof (cases i)
    case 0
    with Cons.prems show ?thesis by simp
  next
    case (Suc k)
    with Cons.prems have "\<not> startswith l q" by auto
    moreover have "find_in_lines (ls @ extra) q = find_in_lines [ls ! k] q"
      using Cons.prems Suc by (intro Cons.IH) auto
    ultimately show ?thesis using Suc by simp
  qed
qed

lemma find_in_lines_none:
  "\<forall>l \<in> set ls. \<not> startswith l q \<Longrightarrow>
   find_in_lines ls q =
     Inl (Exception (py_format ''find_property_value() - Property '{0}' not found'' [q]))"
  by (induction ls) auto

text \<open>
  Claim C7, as stated, fails: the extractor takes the first line that starts with the
  queried text, whatever the key of that line is. With the line of
  \<^verbatim>\<open>VMStateChangeTime\<close> before the line of \<^verbatim>\<open>VMState\<close>, the query \<^verbatim>\<open>VMState\<close> gets the
  change time; and the query \<^verbatim>\<open>VM\<close>, the key of no line, gets a value and no failure.
\<close>

theorem find_property_value_prefix_counterexample:
  \<open>find_property_value
     (''VMStateChangeTime="2020-01-01"'' @ newline @ ''VMState="poweroff"'' @ newline)
     ''VMState'' = Inr ''2020-01-01''
   \<and> find_property_value (''VMState="poweroff"'' @ newline) ''VM'' = Inr ''poweroff''\<close>
  by (simp add: find_property_value_def newline_def startswith_def dquote_def slice_to_last_def)

text \<open>
  Claim C7, amended. The text is made of lines \<^verbatim>\<open>key="value"\<close>, joined by the newline
  sequence, with or without one at the end; no key has a double quote and no line holds
  the newline sequence. Then the extractor returns the value, without its quotes, of the
  first line that starts with the queried text: for a key, exactly its value when no
  earlier line starts with that key. For a non-empty query that starts no line it raises
  the not-found exception.
\<close>

theorem find_property_value_first_line_starting_with:
  assumes wf: "\<forall>kv \<in> set kvs. dquote \<notin> set (fst kv) \<and> \<not> py_in newline (kv_line kv)"
      and ne: "kvs \<noteq> []"
      and form: "vminfo = join newline (map kv_line kvs) \<or>
                 vminfo = join newline (map kv_line kvs) @ newline"
  shows "(i < length kvs \<and> startswith (kv_line (kvs ! i)) q \<and>
            (\<forall>j<i. \<not> startswith (kv_line (kvs ! j)) q) \<longrightarrow>
          find_property_value vminfo q = Inr (snd (kvs ! i)))
       \<and> (q \<noteq> [] \<and> (\<forall>kv \<in> set kvs. \<not> startswith (kv_line kv) q) \<longrightarrow>
          find_property_value vminfo q =
            Inl (Exception (py_format ''find_property_value() - Property '{0}' not found'' [q])))"
proof -
  have clean: "\<forall>l \<in> set (map kv_line kvs). \<not> py_in newline l"
    using wf by simp
  have ne': "map kv_line kvs \<noteq> []"
    using ne by simp
  obtain extra where sp: "py_split vminfo newline = map kv_line kvs @ extra"
    and ex: "extra = [] \<or> extra = [[]]"
    using form py_split_join[OF clean ne'] py_split_join_newline[OF clean ne'] by auto
  show ?thesis
  proof (intro conjI impI)
    assume a: "i < length kvs \<and> startswith (kv_line (kvs ! i)) q \<and>
            (\<forall>j<i. \<not> startswith (kv_line (kvs ! j)) q)"
    then have "find_in_lines (map kv_line kvs @ extra) q = find_in_lines [map kv_line kvs ! i] q"
      by (intro find_in_lines_first) auto
    moreover have "dquote \<notin> set (fst (kvs ! i))"
      using wf a by auto
    ultimately show "find_property_value vminfo q = Inr (snd (kvs ! i))"
      using a kv_line_value[of "kvs ! i"] by (simp add: find_property_value_def sp)
  next
    assume a: "q \<noteq> [] \<and> (\<forall>kv \<in> set kvs. \<not> startswith (kv_line kv) q)"
    then have "\<forall>l \<in> set (map kv_line kvs @ extra). \<not> startswith l q"
      using ex by (auto simp: startswith_def)
    then show "find_property_value vminfo q =
            Inl (Exception (py_format ''find_property_value() - Property '{0}' not found'' [q]))"
      unfolding find_property_value_def sp by (rule find_in_lines_none)
  qed
qed

theorem find_property_value_first_line_starting_with_witness:
  \<open>find_property_value
     (''VMState="poweroff"'' @ newline @ ''VMStateChangeTime="2020-01-01"'' @ newline @
      ''ostype="Ubuntu (64-bit)"'' @ newline) ''VMState'' = Inr ''poweroff''
   \<and> find_property_value
     (''VMState="poweroff"'' @ newline @ ''VMStateChangeTime="2020-01-01"'' @ newline @
      ''ostype="Ubuntu (64-bit)"'' @ newline) ''ostype'' = Inr ''Ubuntu (64-bit)''
   \<and> find_property_value
     (''VMState="poweroff"'' @ newline @ ''VMStateChangeTime="2020-01-01"'' @ newline @
      ''ostype="Ubuntu (64-bit)"'' @ newline) ''name'' =
       Inl (Exception ''find_property_value() - Property 'name' not found'')\<close>
proof -
  let ?kvs = "[(''VMState'', ''poweroff''), (''VMStateChangeTime'', ''2020-01-01''),
               (''ostype'', ''Ubuntu (64-bit)'')]"
  let ?info = \<open>''VMState="poweroff"'' @ newline @ ''VMStateChangeTime="2020-01-01"'' @ newline @
      ''ostype="Ubuntu (64-bit)"'' @ newline\<close>
  have wf: "\<forall>kv \<in> set ?kvs. dquote \<notin> set (fst kv) \<and> \<not> py_in newline (kv_line kv)"
    by (simp add: dquote_def kv_line_def newline_def)
  have ne: "?kvs \<noteq> []"
    by simp
  have form: "?info = join newline (map kv_line ?kvs) \<or>
      ?info = join newline (map kv_line ?kvs) @ newline"
    by (simp add: kv_line_def dquote_def)
  note inst = find_property_value_first_line_starting_with[OF wf ne form]
  have "find_property_value ?info ''VMState'' = Inr ''poweroff''"
    using inst[of 0 "''VMState''"] by (simp add: startswith_def kv_line_def)
  moreover have "find_property_value ?info ''ostype'' = Inr ''Ubuntu (64-bit)''"
    using inst[of 2 "''ostype''"]
    by (simp add: startswith_def kv_line_def less_Suc_eq numeral_2_eq_2)
  moreover have "find_property_value ?info ''name'' =
      Inl (Exception ''find_property_value() - Property 'name' not found'')"
    using inst[of _ "''name''"] by (simp add: startswith_def kv_line_def digit_value_def)
  ultimately show ?thesis
    by blast
qed

section \<open>The guest command\<close>

lemma get_update_command_chain:
  "get_update_command m a =
     concat (map (\<lambda>inv. sudo_prefix a @ '' '' @ inv @ '' && '') (manager_invocations m a)) @
     ''echo '' @ flag"
  by (simp add: get_update_command_def digit_value_def sudo_prefix_def manager_invocations_def
      flag_def)

lemma py_in_sublist: "py_in sub s \<longleftrightarrow> sublist sub s"
  by (induction s) (auto simp: sublist_Cons_right)

text \<open>A word without a space lies on one side of a space.\<close>

lemma sublist_space:
  assumes "CHR '' '' \<notin> set w" "w \<noteq> []"
  shows "sublist w (xs @ CHR '' '' # ys) \<longleftrightarrow> sublist w xs \<or> sublist w ys"
proof
  assume "sublist w (xs @ CHR '' '' # ys)"
  then consider "sublist w xs" | "sublist w (CHR '' '' # ys)"
    | w1 w2 where "w = w1 @ w2" "suffix w1 xs" "prefix w2 (CHR '' '' # ys)"
    by (auto simp: sublist_append)
  then show "sublist w xs \<or> sublist w ys"
  proof cases
    case 1
    then show ?thesis by simp
  next
    case 2
    moreover have "\<not> prefix w (CHR '' '' # ys)"
      using assms by (cases w) auto
    ultimately show ?thesis by (simp add: sublist_Cons_right)
  next
    case 3
    have "w2 = []"
      using 3(1,3) assms(1) by (cases w2) auto
    with 3 show ?thesis by (auto intro: suffix_imp_sublist)
  qed
next
  assume "sublist w xs \<or> sublist w ys"
  then show "sublist w (xs @ CHR '' '' # ys)"
    by (auto simp: sublist_append sublist_Cons_right)
qed

lemma sublist_join_space:
  assumes "CHR '' '' \<notin> set w" "w \<noteq> []"
  shows "sublist w (join '' '' ws) \<longleftrightarrow> (\<exists>x \<in> set ws. sublist w x)"
proof (induction ws rule: induct_list012)
  case 1
  then show ?case using assms by simp
next
  case (2 x)
  then show ?case by simp
next
  case (3 x y zs)
  then show ?case
    using sublist_space[OF assms, of x "join '' '' (y # zs)"] by simp
qed

lemma apt_only_words:
  assumes "apt m" "\<not> snap m" "\<not> remove a"
  shows "get_update_command m a =
     join '' '' [''echo'', password a, ''|'', ''sudo'', ''-S'', ''apt'', ''update'', ''&&'',
                 ''echo'', password a, ''|'', ''sudo'', ''-S'', ''apt'', ''upgrade'', ''-y'', ''&&'',
                 ''echo'', flag]"
  using assms
  by (simp add: get_update_command_chain sudo_prefix_def manager_invocations_def)

lemma apt_only_autoremove:
  assumes "apt m" "\<not> snap m" "\<not> remove a"
  shows "py_in ''autoremove'' (get_update_command m a) \<longleftrightarrow> py_in ''autoremove'' (password a)"
proof -
  have "sublist ''autoremove'' (get_update_command m a) \<longleftrightarrow>
      (\<exists>x \<in> set [''echo'', password a, ''|'', ''sudo'', ''-S'', ''apt'', ''update'', ''&&'',
                 ''echo'', password a, ''|'', ''sudo'', ''-S'', ''apt'', ''upgrade'', ''-y'', ''&&'',
                 ''echo'', flag]. sublist ''autoremove'' x)"
    unfolding apt_only_words[OF assms] by (rule sublist_join_space) simp_all
  also have "\<dots> \<longleftrightarrow> py_in ''autoremove'' (password a)"
    by (simp add: py_in_sublist[symmetric] flag_def)
  finally show ?thesis
    by (simp add: py_in_sublist)
qed

text \<open>
  Claim C5, as stated, fails: the password is put into the command as it is, so with
  autoremove disabled and only apt present a password that holds an autoremove invocation
  puts that invocation into the command.
\<close>

theorem get_update_command_autoremove_counterexample:
  "py_in ''echo x | sudo -S apt autoremove -y && ''
     (get_update_command \<lparr>apt = True, snap = False\<rparr>
        \<lparr>username = ''user'', password = ''x | sudo -S apt autoremove -y && echo x'',
         remove = False, shutdown = False, verbose = False\<rparr>)"
  by (simp add: get_update_command_def digit_value_def flag_def)

text \<open>
  Claim C5, amended. With autoremove disabled and only apt present, the command is the apt
  update and the apt upgrade, each behind the privilege wrapper, and then the echo of the
  sentinel, with which it ends; the text \<^verbatim>\<open>autoremove\<close> is in the command only when it is in
  the password. With no manager present the command is the echo of the sentinel alone,
  which is not empty.
\<close>

theorem get_update_command_apt_only:
  "(apt m \<and> \<not> snap m \<and> \<not> remove a \<longrightarrow>
      get_update_command m a =
        sudo_prefix a @ '' apt update && '' @ sudo_prefix a @ '' apt upgrade -y && '' @
        ''echo '' @ flag
      \<and> suffix (''echo '' @ flag) (get_update_command m a)
      \<and> (py_in ''autoremove'' (get_update_command m a) \<longleftrightarrow> py_in ''autoremove'' (password a)))
   \<and> (\<not> apt m \<and> \<not> snap m \<longrightarrow>
      get_update_command m a = ''echo '' @ flag \<and> get_update_command m a \<noteq> [])"
proof (intro conjI impI)
  assume h: "apt m \<and> \<not> snap m \<and> \<not> remove a"
  then show eq: "get_update_command m a =
      sudo_prefix a @ '' apt update && '' @ sudo_prefix a @ '' apt upgrade -y && '' @
      ''echo '' @ flag"
    by (simp add: get_update_command_chain manager_invocations_def)
  have "get_update_command m a =
      (sudo_prefix a @ '' apt update && '' @ sudo_prefix a @ '' apt upgrade -y && '') @
      (''echo '' @ flag)"
    using eq by simp
  then show "suffix (''echo '' @ flag) (get_update_command m a)"
    by (metis suffixI)
  show "py_in ''autoremove'' (get_update_command m a) \<longleftrightarrow> py_in ''autoremove'' (password a)"
    using h by (intro apt_only_autoremove) simp_all
next
  assume "\<not> apt m \<and> \<not> snap m"
  then show "get_update_command m a = ''echo '' @ flag"
    by (simp add: get_update_command_chain manager_invocations_def)
  then show "get_update_command m a \<noteq> []"
    by simp
qed

theorem get_update_command_apt_only_witness:
  "get_update_command \<lparr>apt = True, snap = False\<rparr>
     \<lparr>username = ''user'', password = ''secret'', remove = False, shutdown = False,
      verbose = False\<rparr> =
     ''echo secret | sudo -S apt update && echo secret | sudo -S apt upgrade -y && '' @
     ''echo UpdateVirtualBoxMachinesFinalSignalOperationIsComplete''
   \<and> \<not> py_in ''autoremove''
      (get_update_command \<lparr>apt = True, snap = False\<rparr>
        \<lparr>username = ''user'', password = ''secret'', remove = False, shutdown = False,
         verbose = False\<rparr>)
   \<and> get_update_command \<lparr>apt = False, snap = False\<rparr>
     \<lparr>username = ''user'', password = ''secret'', remove = False, shutdown = False,
      verbose = False\<rparr> =
     ''echo UpdateVirtualBoxMachinesFinalSignalOperationIsComplete''"
proof -
  let ?a = "\<lparr>username = ''user'', password = ''secret'', remove = False, shutdown = False,
      verbose = False\<rparr>"
  have "get_update_command \<lparr>apt = True, snap = False\<rparr> ?a =
     ''echo secret | sudo -S apt update && echo secret | sudo -S apt upgrade -y && '' @
     ''echo UpdateVirtualBoxMachinesFinalSignalOperationIsComplete''
   \<and> \<not> py_in ''autoremove'' (get_update_command \<lparr>apt = True, snap = False\<rparr> ?a)"
    using get_update_command_apt_only[of "\<lparr>apt = True, snap = False\<rparr>" ?a]
    by (simp add: sudo_prefix_def flag_def)
  moreover have "get_update_command \<lparr>apt = False, snap = False\<rparr> ?a =
     ''echo UpdateVirtualBoxMachinesFinalSignalOperationIsComplete''"
    using get_update_command_apt_only[of "\<lparr>apt = False, snap = False\<rparr>" ?a]
    by (simp add: flag_def)
  ultimately show ?thesis
    by blast
qed

text \<open>
  Claim C10. The command is the chain of the invocations of the managers present, each
  one behind \<^verbatim>\<open>echo <password> | sudo -S\<close> with the password as given, and then the echo of
  the sentinel. When a manager is present the chain is not empty and the wrapper with the
  password is in the command. When none is present the command is the echo of the
  sentinel, the same for every password, and has no \<^verbatim>\<open>sudo\<close> in it.
\<close>

theorem get_update_command_embeds_password:
  "get_update_command m a =
     concat (map (\<lambda>inv. sudo_prefix a @ '' '' @ inv @ '' && '') (manager_invocations m a)) @
     ''echo '' @ flag
   \<and> sudo_prefix a = ''echo '' @ password a @ '' | sudo -S''
   \<and> (apt m \<or> snap m \<longrightarrow>
        manager_invocations m a \<noteq> [] \<and> py_in (sudo_prefix a) (get_update_command m a))
   \<and> (\<not> apt m \<and> \<not> snap m \<longrightarrow>
        get_update_command m a = ''echo '' @ flag \<and> \<not> py_in ''sudo'' (get_update_command m a))"
proof (intro conjI impI)
  show "get_update_command m a =
     concat (map (\<lambda>inv. sudo_prefix a @ '' '' @ inv @ '' && '') (manager_invocations m a)) @
     ''echo '' @ flag"
    by (rule get_update_command_chain)
  show "sudo_prefix a = ''echo '' @ password a @ '' | sudo -S''"
    by (simp add: sudo_prefix_def)
next
  assume h: "apt m \<or> snap m"
  then show ne: "manager_invocations m a \<noteq> []"
    by (auto simp: manager_invocations_def)
  then obtain inv rest where "manager_invocations m a = inv # rest"
    by (cases "manager_invocations m a") auto
  then have "get_update_command m a =
      sudo_prefix a @ ('' '' @ inv @ '' && '' @
        concat (map (\<lambda>inv. sudo_prefix a @ '' '' @ inv @ '' && '') rest) @ ''echo '' @ flag)"
    by (simp add: get_update_command_chain)
  then show "py_in (sudo_prefix a) (get_update_command m a)"
    unfolding py_in_sublist by (metis sublist_append_rightI)
next
  assume "\<not> apt m \<and> \<not> snap m"
  then show e: "get_update_command m a = ''echo '' @ flag"
    by (simp add: get_update_command_chain manager_invocations_def)
  show "\<not> py_in ''sudo'' (get_update_command m a)"
    unfolding e by (simp add: flag_def)
qed

theorem get_update_command_embeds_password_witness:
  "get_update_command \<lparr>apt = True, snap = True\<rparr>
     \<lparr>username = ''user'', password = ''secret'', remove = True, shutdown = False,
      verbose = False\<rparr> =
     ''echo secret | sudo -S apt update && echo secret | sudo -S apt upgrade -y && '' @
     ''echo secret | sudo -S apt autoremove -y && echo secret | sudo -S snap refresh && '' @
     ''echo UpdateVirtualBoxMachinesFinalSignalOperationIsComplete''
   \<and> py_in ''echo secret | sudo -S''
      (get_update_command \<lparr>apt = True, snap = True\<rparr>
        \<lparr>username = ''user'', password = ''secret'', remove = True, shutdown = False,
         verbose = False\<rparr>)
   \<and> \<not> py_in ''sudo''
      (get_update_command \<lparr>apt = False, snap = False\<rparr>
        \<lparr>username = ''user'', password = ''secret'', remove = True, shutdown = False,
         verbose = False\<rparr>)"
proof -
  let ?a = "\<lparr>username = ''user'', password = ''secret'', remove = True, shutdown = False,
      verbose = False\<rparr>"
  have "get_update_command \<lparr>apt = True, snap = True\<rparr> ?a =
     ''echo secret | sudo -S apt update && echo secret | sudo -S apt upgrade -y && '' @
     ''echo secret | sudo -S apt autoremove -y && echo secret | sudo -S snap refresh && '' @
     ''echo UpdateVirtualBoxMachinesFinalSignalOperationIsComplete''
   \<and> py_in ''echo secret | sudo -S'' (get_update_command \<lparr>apt = True, snap = True\<rparr> ?a)"
    using get_update_command_embeds_password[of "\<lparr>apt = True, snap = True\<rparr>" ?a]
    by (simp add: sudo_prefix_def manager_invocations_def flag_def)
  moreover have "\<not> py_in ''sudo'' (get_update_command \<lparr>apt = False, snap = False\<rparr> ?a)"
    using get_update_command_embeds_password[of "\<lparr>apt = False, snap = False\<rparr>" ?a]
    by (simp add: manager_invocations_def flag_def)
  ultimately show ?thesis
    by blast
qed

section \<open>The command lines and the events of the stages\<close>

lemma run_command_line:
  "run_command w vm args command tr =
     (respond w tr (guest_line w vm args command), tr @ [Exec (guest_line w vm args command)])"
  by (simp add: run_command_def vboxmanage_def guest_line_def vbox_line_def digit_value_def Let_def)

lemma discover_trace:
  "snd (discover_package_managers w vm args tr) =
     tr @ [Exec (guest_line w vm args ''which apt''), Exec (guest_line w vm args ''which snap'')]"
  by (simp add: discover_package_managers_def run_command_line Let_def digit_value_def)

lemma run_update_command_line:
  "run_update_command w vm args tr =
     (let (m, tr1) = discover_package_managers w vm args tr;
          line = guest_line w vm args (get_update_command m args)
      in (respond w tr1 line, tr1 @ [Exec line]))"
  by (simp add: run_update_command_def run_command_line Let_def split: prod.splits)

lemma guest_line_inj: "guest_line w vm args c = guest_line w vm args d \<longleftrightarrow> c = d"
  by (simp add: guest_line_def vbox_line_def)

lemma which_not_update:
  "get_update_command m a \<noteq> ''which apt''" "get_update_command m a \<noteq> ''which snap''"
proof -
  have "last (get_update_command m a) = CHR ''e''"
    by (simp add: get_update_command_chain flag_def)
  then show "get_update_command m a \<noteq> ''which apt''" "get_update_command m a \<noteq> ''which snap''"
    by auto
qed

lemma is_update_dispatch_update:
  "is_update_dispatch w vm args (Exec (guest_line w vm args (get_update_command m args)))"
proof (cases m)
  case (fields a s)
  then show ?thesis
    by (cases a; cases s) (simp_all add: is_update_dispatch_def)
qed

lemma is_update_dispatch_other:
  "\<not> is_update_dispatch w vm args (Exec (guest_line w vm args ''which apt''))"
  "\<not> is_update_dispatch w vm args (Exec (guest_line w vm args ''which snap''))"
  "\<not> is_update_dispatch w vm args (Sleep n)"
  "\<not> is_update_dispatch w vm args (Print s)"
  using which_not_update[of _ args, symmetric]
  by (simp_all add: is_update_dispatch_def guest_line_inj)

lemma run_update_command_one_dispatch:
  "\<exists>new. snd (run_update_command w vm args tr) = tr @ new \<and>
         length (filter (is_update_dispatch w vm args) new) = 1"
proof -
  obtain m tr1 where d: "discover_package_managers w vm args tr = (m, tr1)"
    by (cases "discover_package_managers w vm args tr")
  then have "tr1 = tr @ [Exec (guest_line w vm args ''which apt''), Exec (guest_line w vm args ''which snap'')]"
    using discover_trace[of w vm args tr] by simp
  then show ?thesis
    by (simp add: run_update_command_line d Let_def is_update_dispatch_update
        is_update_dispatch_other)
qed

lemma dispatch_loop_exhausted: "dispatch_loop w vm args False 5 r tr = (True, 6, r, tr)"
  by simp

lemma dispatch_loop_bound:
  "n \<le> 5 \<Longrightarrow> dispatch_loop w vm args False n r tr = (e, n', r', tr') \<Longrightarrow>
   n' \<le> 6 \<and> (e \<longleftrightarrow> n' = 6) \<and>
   (\<exists>new. tr' = tr @ new \<and> length (filter (is_update_dispatch w vm args) new) + n = min n' 5)"
proof (induction "5 - n" arbitrary: n r tr)
  case 0
  then show ?case by simp
next
  case (Suc k)
  then have lt: "n < 5" by simp
  obtain r1 tr1 where ru: "run_update_command w vm args tr = (r1, tr1)"
    by (cases "run_update_command w vm args tr")
  obtain new1 where new1: "tr1 = tr @ new1"
      "length (filter (is_update_dispatch w vm args) new1) = 1"
    using run_update_command_one_dispatch[of w vm args tr] ru by auto
  show ?case
  proof (cases "py_in ''error:'' r1")
    case True
    have "dispatch_loop w vm args False n r tr =
        dispatch_loop w vm args False (n + 1) r1 (sleep 30 tr1)"
      using lt ru True by (subst dispatch_loop.simps) simp
    then have eq: "dispatch_loop w vm args False (n + 1) r1 (sleep 30 tr1) = (e, n', r', tr')"
      using Suc.prems by simp
    have "k = 5 - (n + 1)" "n + 1 \<le> 5"
      using Suc(2) lt by simp_all
    from Suc(1)[OF this eq]
    obtain new where "n' \<le> 6" "e \<longleftrightarrow> n' = 6" "tr' = sleep 30 tr1 @ new"
        "length (filter (is_update_dispatch w vm args) new) + (n + 1) = min n' 5"
      by auto
    then show ?thesis
      using new1 by (auto simp: sleep_def is_update_dispatch_other)
  next
    case False
    have "dispatch_loop w vm args False n r tr = (False, n + 1, r1, tr1)"
      using lt ru False by (subst dispatch_loop.simps) simp
    then show ?thesis
      using Suc.prems new1 lt by auto
  qed
qed

lemma completion_loop_last: "completion_loop r False 20 tr = (True, 21, tr)"
  by simp

lemma completion_loop_from:
  "n < 20 \<Longrightarrow> completion_loop r False n tr =
     (if py_in flag r then (False, n + 1, tr) else (True, 21, tr @ replicate (20 - n) (Sleep 30)))"
proof (induction "20 - n" arbitrary: n tr)
  case 0
  then show ?case by simp
next
  case (Suc k)
  show ?case
  proof (cases "py_in flag r")
    case True
    then show ?thesis using Suc.prems by simp
  next
    case False
    have step: "completion_loop r False n tr = completion_loop r False (n + 1) (sleep 30 tr)"
      using False Suc.prems by (subst completion_loop.simps) simp
    have "completion_loop r False (n + 1) (sleep 30 tr) =
        (True, 21, sleep 30 tr @ replicate (20 - (n + 1)) (Sleep 30))"
    proof (cases "n + 1 = 20")
      case True
      then show ?thesis using completion_loop_last[of r "sleep 30 tr"] by simp
    next
      case F: False
      then have "n + 1 < 20" "k = 20 - (n + 1)" using Suc.prems Suc(2) by simp_all
      from Suc(1)[OF this(2) this(1)] False show ?thesis by simp
    qed
    moreover have "sleep 30 tr @ replicate (20 - (n + 1)) (Sleep 30) =
        tr @ replicate (20 - n) (Sleep 30)"
      using Suc.prems by (simp add: sleep_def Suc_diff_Suc flip: replicate_Suc)
    ultimately show ?thesis using False step by simp
  qed
qed

lemma update_stages_eq:
  assumes "dispatch_loop w vm args False 0 response
             (print_if_verbose args ''Waiting to run update command'' tr) = (e, n, r, tr1)"
  shows "update_stages w vm args response tr =
    (let tr2 = print_if_verbose args ''Waiting for update to finish''
                 (print_if_verbose args
                    (if e then ''Update command failed'' else ''Update command run'') tr1);
         (e', n', tr3) = completion_loop r e 0 tr2;
         tr4 = print_if_verbose args ''Shutting down machine''
                 (print_if_verbose args
                    (if e' then ''Update timed out'' else ''Update completed'') tr3)
     in (e', tr4 @ [Exec (vbox_line w (acpipowerbutton vm)), Sleep 30]))"
  using assms
  by (simp add: update_stages_def Let_def vboxmanage_def sleep_def vbox_line_def digit_value_def
      split: prod.splits)

lemma completion_loop_trace:
  "\<exists>e' n' k. completion_loop r e 0 tr = (e', n', tr @ replicate k (Sleep 30)) \<and> k \<le> 20"
proof (cases e)
  case True
  then have "completion_loop r e 0 tr = (True, 0, tr @ replicate 0 (Sleep 30))" by simp
  then show ?thesis by blast
next
  case False
  then have "completion_loop r e 0 tr =
      (if py_in flag r then (False, 1, tr @ replicate 0 (Sleep 30)) else (True, 21, tr @ replicate 20 (Sleep 30)))"
    using completion_loop_from[of 0 r tr] by simp
  then show ?thesis by (metis le0 order_refl)
qed

lemma button_not_dispatch:
  "\<not> is_update_dispatch w vm args (Exec (vbox_line w (acpipowerbutton vm)))"
  by (simp add: is_update_dispatch_def guest_line_def vbox_line_def acpipowerbutton_def digit_value_def)

lemma print_if_verbose_app:
  "\<exists>p. print_if_verbose args msg tr = tr @ p \<and> filter (is_update_dispatch w vm a) p = []"
  by (simp add: print_if_verbose_def is_update_dispatch_other)

lemma update_stages_dispatches:
  "\<exists>new. snd (update_stages w vm args response tr) = tr @ new \<and>
         length (filter (is_update_dispatch w vm args) new) \<le> 5"
proof -
  let ?d = "is_update_dispatch w vm args"
  obtain p0 where p0: "print_if_verbose args ''Waiting to run update command'' tr = tr @ p0" "filter ?d p0 = []"
    using print_if_verbose_app by blast
  obtain e n r tr1 where d: "dispatch_loop w vm args False 0 response (tr @ p0) = (e, n, r, tr1)"
    by (cases "dispatch_loop w vm args False 0 response (tr @ p0)")
  from dispatch_loop_bound[OF _ this] obtain new1 where
    new1: "tr1 = (tr @ p0) @ new1" "length (filter ?d new1) \<le> 5"
    by auto
  let ?m1 = "if e then ''Update command failed'' else ''Update command run''"
  obtain p1 where p1: "print_if_verbose args ?m1 tr1 = tr1 @ p1" "filter ?d p1 = []"
    using print_if_verbose_app by blast
  obtain p2 where p2: "print_if_verbose args ''Waiting for update to finish'' (tr1 @ p1) = (tr1 @ p1) @ p2" "filter ?d p2 = []"
    using print_if_verbose_app by blast
  obtain e' n' k where c: "completion_loop r e 0 ((tr1 @ p1) @ p2) = (e', n', ((tr1 @ p1) @ p2) @ replicate k (Sleep 30))"
    using completion_loop_trace by blast
  let ?tr3 = "((tr1 @ p1) @ p2) @ replicate k (Sleep 30)"
  let ?m3 = "if e' then ''Update timed out'' else ''Update completed''"
  obtain p3 where p3: "print_if_verbose args ?m3 ?tr3 = ?tr3 @ p3" "filter ?d p3 = []"
    using print_if_verbose_app by blast
  obtain p4 where p4: "print_if_verbose args ''Shutting down machine'' (?tr3 @ p3) = (?tr3 @ p3) @ p4" "filter ?d p4 = []"
    using print_if_verbose_app by blast
  have "snd (update_stages w vm args response tr) =
      ((?tr3 @ p3) @ p4) @ [Exec (vbox_line w (acpipowerbutton vm)), Sleep 30]"
    using d p0(1) p1(1) p2(1) c p3(1) p4(1)
    by (simp add: update_stages_eq[of w vm args response tr e n r tr1] Let_def)
  then have "snd (update_stages w vm args response tr) =
      tr @ (p0 @ new1 @ p1 @ p2 @ replicate k (Sleep 30) @ p3 @ p4 @
            [Exec (vbox_line w (acpipowerbutton vm)), Sleep 30])"
    by (simp only: new1(1) append_assoc)
  moreover have "filter ?d (replicate k (Sleep 30)) = []"
    by (simp add: is_update_dispatch_other)
  then have "length (filter ?d (p0 @ new1 @ p1 @ p2 @ replicate k (Sleep 30) @ p3 @ p4 @
            [Exec (vbox_line w (acpipowerbutton vm)), Sleep 30])) \<le> 5"
    using new1(2) p0(2) p1(2) p2(2) p3(2) p4(2)
    by (simp add: button_not_dispatch is_update_dispatch_other)
  ultimately show ?thesis
    by blast
qed

lemma polled_Suc: "polled w vm (Suc n) tr = polled w vm n (tr @ [Exec (vbox_line w (showvminfo vm)), Sleep 15])"
  by (simp add: polled_def)

lemma polled_0: "polled w vm 0 tr = tr"
  by (simp add: polled_def)

lemma wait_step:
  "wait_for_poweroff w vm tr =
     (case power_state w vm tr of
        Inl e \<Rightarrow> Some (Inl e, tr @ [Exec (vbox_line w (showvminfo vm))])
      | Inr state \<Rightarrow>
          if state = ''poweroff'' then Some (Inr (), tr @ [Exec (vbox_line w (showvminfo vm))])
          else wait_for_poweroff w vm (polled w vm 1 tr))"
  by (subst wait_for_poweroff.simps)
     (auto simp: power_state_def vboxmanage_def vbox_line_def sleep_def polled_def split: sum.splits)

lemma polled_polled: "polled w vm k (polled w vm 1 tr) = polled w vm (Suc k) tr"
  by (simp add: polled_def)

lemma polled_polled': "polled w vm k (polled w vm (Suc 0) tr) = polled w vm (Suc k) tr"
  by (simp add: polled_def)

lemma wait_skip:
  "(\<forall>k<n. still_on w vm (polled w vm k tr)) \<Longrightarrow>
   wait_for_poweroff w vm tr = wait_for_poweroff w vm (polled w vm n tr)"
proof (induction n arbitrary: tr)
  case 0
  then show ?case by (simp add: polled_0)
next
  case (Suc n)
  from Suc.prems have "still_on w vm (polled w vm 0 tr)"
    by blast
  then have "still_on w vm tr"
    by (simp add: polled_0)
  then have "wait_for_poweroff w vm tr = wait_for_poweroff w vm (polled w vm 1 tr)"
    by (subst wait_step) (auto simp: still_on_def split: sum.splits)
  moreover have "\<forall>k<n. still_on w vm (polled w vm k (polled w vm 1 tr))"
    using Suc.prems by (simp add: polled_polled')
  ultimately show ?case
    using Suc.IH[of "polled w vm 1 tr"] by (simp add: polled_polled')
qed

lemma off_after_now:
  assumes "\<not> still_on w vm tr"
      and "y = (case power_state w vm tr of Inl e \<Rightarrow> Inl e | Inr s \<Rightarrow> Inr (),
               tr @ [Exec (vbox_line w (showvminfo vm))])"
  shows "off_after w vm tr y"
  unfolding off_after_def
  using assms by (intro exI[of _ 0]) (simp add: polled_0 split: sum.splits)

lemma off_after_later:
  assumes "still_on w vm tr" and "off_after w vm (polled w vm 1 tr) y"
  shows "off_after w vm tr y"
proof -
  from assms(2) obtain n where n:
    "\<forall>k<n. still_on w vm (polled w vm (Suc k) tr)"
    "\<not> still_on w vm (polled w vm (Suc n) tr)"
    "snd y = polled w vm (Suc n) tr @ [Exec (vbox_line w (showvminfo vm))]"
    "fst y = (case power_state w vm (polled w vm (Suc n) tr) of
        Inl e \<Rightarrow> Inl e | Inr s \<Rightarrow> Inr ())"
    unfolding off_after_def polled_polled by blast
  have "still_on w vm (polled w vm k tr)" if "k < Suc n" for k
    using that n(1) assms(1) by (cases k) (simp_all add: polled_0)
  then show ?thesis
    unfolding off_after_def using n(2-) by (intro exI[of _ "Suc n"]) simp
qed

lemma wait_result:
  assumes "wait_for_poweroff w vm tr = Some y"
  shows "off_after w vm tr y"
proof (rule wait_for_poweroff.raw_induct[where P = off_after, OF _ assms])
  fix f w vm tr y
  assume IH: "\<And>w vm tr y. f w vm tr = Some y \<Longrightarrow> off_after w vm tr y"
    and step: "(let (vm_info, tr) = vboxmanage w (showvminfo vm) tr
         in case find_property_value vm_info ''VMState'' of
              Inl e \<Rightarrow> Some (Inl e, tr)
            | Inr state \<Rightarrow>
                if ''poweroff'' = state then Some (Inr (), tr)
                else f w vm (sleep 15 tr)) = Some y"
  have step': "(case power_state w vm tr of
        Inl e \<Rightarrow> Some (Inl e, tr @ [Exec (vbox_line w (showvminfo vm))])
      | Inr state \<Rightarrow>
          if state = ''poweroff'' then Some (Inr (), tr @ [Exec (vbox_line w (showvminfo vm))])
          else f w vm (polled w vm 1 tr)) = Some y"
  proof (cases "power_state w vm tr")
    case (Inl e)
    with step show ?thesis
      by (simp add: power_state_def vboxmanage_def vbox_line_def)
  next
    case (Inr state)
    with step show ?thesis
      by (cases "state = ''poweroff''")
         (auto simp: power_state_def vboxmanage_def vbox_line_def sleep_def polled_def)
  qed
  show "off_after w vm tr y"
  proof (cases "power_state w vm tr")
    case (Inl e)
    then have "\<not> still_on w vm tr"
      by (simp add: still_on_def)
    moreover have "y = (Inl e, tr @ [Exec (vbox_line w (showvminfo vm))])"
      using step' Inl by simp
    ultimately show ?thesis
      using Inl by (intro off_after_now) simp_all
  next
    case (Inr state)
    show ?thesis
    proof (cases "state = ''poweroff''")
      case True
      then have "\<not> still_on w vm tr"
        using Inr by (simp add: still_on_def)
      moreover have "y = (Inr (), tr @ [Exec (vbox_line w (showvminfo vm))])"
        using step' Inr True by simp
      ultimately show ?thesis
        using Inr by (intro off_after_now) simp_all
    next
      case False
      then have on: "still_on w vm tr"
        using Inr by (simp add: still_on_def)
      have "f w vm (polled w vm 1 tr) = Some y"
        using step' Inr False by simp
      then have "off_after w vm (polled w vm 1 tr) y"
        by (rule IH)
      with on show ?thesis
        by (rule off_after_later)
    qed
  qed
qed

lemma wait_never:
  "wait_for_poweroff w vm tr = None" if "\<forall>k. still_on w vm (polled w vm k tr)"
proof (cases "wait_for_poweroff w vm tr")
  case (Some y)
  then have "off_after w vm tr y" by (rule wait_result)
  then obtain n where "\<not> still_on w vm (polled w vm n tr)"
    unfolding off_after_def by blast
  with that show ?thesis by simp
qed simp

lemma update_stages_after_dispatch:
  assumes "dispatch_loop w vm args False 0 response
             (print_if_verbose args ''Waiting to run update command'' tr) = (False, n, r, tr1)"
  shows "update_stages w vm args response tr =
     (if py_in flag r
      then (False,
            print_if_verbose args ''Shutting down machine''
              (print_if_verbose args ''Update completed''
                (print_if_verbose args ''Waiting for update to finish''
                  (print_if_verbose args ''Update command run'' tr1))) @
            [Exec (vbox_line w (acpipowerbutton vm)), Sleep 30])
      else (True,
            print_if_verbose args ''Shutting down machine''
              (print_if_verbose args ''Update timed out''
                (print_if_verbose args ''Waiting for update to finish''
                  (print_if_verbose args ''Update command run'' tr1) @
                 replicate 20 (Sleep 30))) @
            [Exec (vbox_line w (acpipowerbutton vm)), Sleep 30]))"
proof -
  have "completion_loop r False 0 tr =
      (if py_in flag r then (False, 1, tr) else (True, 21, tr @ replicate 20 (Sleep 30)))" for tr
    using completion_loop_from[of 0 r tr] by simp
  then show ?thesis
    by (simp add: update_stages_eq[OF assms] Let_def del: completion_loop.simps)
qed

lemma update_after_boot:
  assumes "check_and_boot w vm args tr = (Next response, tr1)"
      and "update_stages w vm args response tr1 = (err, tr2)"
  shows "update w vm args tr =
     (case wait_for_poweroff w vm tr2 of
        None \<Rightarrow> None
      | Some (Inl e, t) \<Rightarrow> Some (Inl e, t)
      | Some (Inr u, t) \<Rightarrow> Some (Inr True, print_if_verbose args ''Shutdown complete'' t))"
  using assms by (simp add: update_def)

lemma update_stages_button:
  "\<exists>pre. snd (update_stages w vm args response tr) =
     pre @ [Exec (vbox_line w (acpipowerbutton vm)), Sleep 30]"
proof -
  obtain e n r tr1 where "dispatch_loop w vm args False 0 response
             (print_if_verbose args ''Waiting to run update command'' tr) = (e, n, r, tr1)"
    using prod_cases4 by blast
  from update_stages_eq[OF this] show ?thesis
    by (simp add: Let_def split: prod.splits del: completion_loop.simps dispatch_loop.simps)
qed

lemma wait_off:
  assumes "\<forall>k<n. still_on w vm (polled w vm k tr)"
      and "power_state w vm (polled w vm n tr) = Inr ''poweroff''"
  shows "wait_for_poweroff w vm tr =
     Some (Inr (), polled w vm n tr @ [Exec (vbox_line w (showvminfo vm))])"
proof -
  have "wait_for_poweroff w vm tr = wait_for_poweroff w vm (polled w vm n tr)"
    using assms(1) by (rule wait_skip)
  also have "\<dots> = Some (Inr (), polled w vm n tr @ [Exec (vbox_line w (showvminfo vm))])"
    using assms(2) by (subst wait_step) simp
  finally show ?thesis .
qed

lemma boot_skip:
  assumes "power_state w vm tr = Inr state"
      and "state \<noteq> ''poweroff'' \<or> os_type w vm tr = Inr ''Windows''"
  shows "check_and_boot w vm args tr = (Return False, tr @ [Exec (vbox_line w (showvminfo vm))])"
  using assms
  by (auto simp: check_and_boot_def vboxmanage_def power_state_def os_type_def vbox_line_def)

lemma other_lines_not_dispatch:
  "\<not> is_update_dispatch w vm args (Exec (vbox_line w (showvminfo vm)))"
  "\<not> is_update_dispatch w vm args (Exec (vbox_line w (py_format ''startvm {0}'' [uuid vm])))"
  by (simp_all add: is_update_dispatch_def guest_line_def vbox_line_def showvminfo_def
      digit_value_def)

lemma check_and_boot_start:
  assumes "power_state w vm tr = Inr ''poweroff''" "os_type w vm tr = Inr os" "os \<noteq> ''Windows''"
  shows "check_and_boot w vm args tr =
     (let tr1 = print_if_verbose args ''Starting machine''
                  (tr @ [Exec (vbox_line w (showvminfo vm))]);
          response = respond w tr1 (vbox_line w (py_format ''startvm {0}'' [uuid vm]));
          tr2 = tr1 @ [Exec (vbox_line w (py_format ''startvm {0}'' [uuid vm])), Sleep 60]
      in if \<not> py_in ''successfully started'' response then (Return False, tr2)
         else (Next response, print_if_verbose args ''Machine started successfully'' tr2))"
  using assms
  by (simp add: check_and_boot_def power_state_def os_type_def vboxmanage_def vbox_line_def
      sleep_def Let_def)

lemma check_and_boot_stop:
  assumes "power_state w vm tr = Inl e \<or>
           (\<exists>s. power_state w vm tr = Inr s \<and> s \<noteq> ''poweroff'') \<or>
           os_type w vm tr = Inl e' \<or> os_type w vm tr = Inr ''Windows''"
  shows "snd (check_and_boot w vm args tr) = tr @ [Exec (vbox_line w (showvminfo vm))]"
  using assms
  by (auto simp: check_and_boot_def power_state_def os_type_def vboxmanage_def vbox_line_def
      split: sum.splits)

lemma check_and_boot_trace:
  "\<exists>new. snd (check_and_boot w vm args tr) = tr @ new \<and>
         filter (is_update_dispatch w vm args) new = []"
proof -
  let ?d = "is_update_dispatch w vm args"
  let ?i = "Exec (vbox_line w (showvminfo vm))"
  let ?s = "Exec (vbox_line w (py_format ''startvm {0}'' [uuid vm]))"
  have stop: ?thesis if "snd (check_and_boot w vm args tr) = tr @ [?i]"
    using that by (simp add: other_lines_not_dispatch)
  show ?thesis
  proof (cases "power_state w vm tr")
    case (Inl e)
    then show ?thesis by (intro stop check_and_boot_stop[where e = e]) simp
  next
    case (Inr s)
    show ?thesis
    proof (cases "s = ''poweroff''")
      case False
      with Inr show ?thesis by (intro stop check_and_boot_stop) simp
    next
      case True
      show ?thesis
      proof (cases "os_type w vm tr")
        case (Inl e')
        then show ?thesis by (intro stop check_and_boot_stop[where e' = e']) simp
      next
        case os: (Inr os)
        show ?thesis
        proof (cases "os = ''Windows''")
          case True
          with os show ?thesis by (intro stop check_and_boot_stop) simp
        next
          case False
          obtain p where p: "print_if_verbose args ''Starting machine'' (tr @ [?i]) = (tr @ [?i]) @ p"
              "filter ?d p = []"
            using print_if_verbose_app by blast
          obtain q where q: "print_if_verbose args ''Machine started successfully''
                (((tr @ [?i]) @ p) @ [?s, Sleep 60]) = (((tr @ [?i]) @ p) @ [?s, Sleep 60]) @ q"
              "filter ?d q = []"
            using print_if_verbose_app by blast
          have "snd (check_and_boot w vm args tr) = tr @ ([?i] @ p @ [?s, Sleep 60]) \<or>
              snd (check_and_boot w vm args tr) = tr @ ([?i] @ p @ [?s, Sleep 60] @ q)"
            using p(1) q(1)
            by (simp add: check_and_boot_start[OF Inr[unfolded True] os False] Let_def)
          moreover have "filter ?d ([?i] @ p @ [?s, Sleep 60]) = []"
              "filter ?d ([?i] @ p @ [?s, Sleep 60] @ q) = []"
            using p(2) q(2)
            by (simp_all add: other_lines_not_dispatch is_update_dispatch_other
                del: py_format.simps)
          ultimately show ?thesis by blast
        qed
      qed
    qed
  qed
qed

lemma polled_no_dispatch:
  "\<exists>new. polled w vm n tr = tr @ new \<and> filter (is_update_dispatch w vm args) new = []"
proof -
  have "filter (is_update_dispatch w vm args)
      (concat (replicate n [Exec (vbox_line w (showvminfo vm)), Sleep 15])) = []"
    by (induction n) (simp_all add: other_lines_not_dispatch is_update_dispatch_other)
  then show ?thesis
    unfolding polled_def by blast
qed

lemma update_dispatches:
  assumes "update w vm args tr = Some (res, tr')"
  shows "\<exists>new. tr' = tr @ new \<and> length (filter (is_update_dispatch w vm args) new) \<le> 5"
proof -
  let ?d = "is_update_dispatch w vm args"
  obtain fl tr1 where cb: "check_and_boot w vm args tr = (fl, tr1)"
    by (cases "check_and_boot w vm args tr")
  obtain new0 where new0: "tr1 = tr @ new0" "filter ?d new0 = []"
    using check_and_boot_trace[of w vm args tr] cb by auto
  show ?thesis
  proof (cases fl)
    case (Raise e)
    with assms cb have "tr' = tr1" by (simp add: update_def)
    with new0 show ?thesis by auto
  next
    case (Return b)
    with assms cb have "tr' = tr1" by (simp add: update_def)
    with new0 show ?thesis by auto
  next
    case (Next response)
    obtain err tr2 where st: "update_stages w vm args response tr1 = (err, tr2)"
      by (cases "update_stages w vm args response tr1")
    obtain new1 where new1: "tr2 = tr1 @ new1" "length (filter ?d new1) \<le> 5"
      using update_stages_dispatches[of w vm args response tr1] st by auto
    note u = update_after_boot[OF cb[unfolded Next] st]
    from assms u obtain y where y: "wait_for_poweroff w vm tr2 = Some y"
      by (cases "wait_for_poweroff w vm tr2") simp_all
    from wait_result[OF y] obtain n where
      n: "snd y = polled w vm n tr2 @ [Exec (vbox_line w (showvminfo vm))]"
      unfolding off_after_def by blast
    obtain new2 where new2: "polled w vm n tr2 = tr2 @ new2" "filter ?d new2 = []"
      using polled_no_dispatch by blast
    obtain p where p: "print_if_verbose args ''Shutdown complete'' (snd y) = snd y @ p"
        "filter ?d p = []"
      using print_if_verbose_app by blast
    have "tr' = snd y \<or> tr' = snd y @ p"
      using assms u y p(1) by (cases y; cases "fst y") auto
    then have "tr' = tr @ (new0 @ new1 @ new2 @ [Exec (vbox_line w (showvminfo vm))]) \<or>
        tr' = tr @ (new0 @ new1 @ new2 @ [Exec (vbox_line w (showvminfo vm))] @ p)"
      using n new0(1) new1(1) new2(1) by simp
    moreover have "length (filter ?d (new0 @ new1 @ new2 @ [Exec (vbox_line w (showvminfo vm))])) \<le> 5"
      "length (filter ?d (new0 @ new1 @ new2 @ [Exec (vbox_line w (showvminfo vm))] @ p)) \<le> 5"
      using new0(2) new1(2) new2(2) p(2) by (simp_all add: other_lines_not_dispatch)
    ultimately show ?thesis by blast
  qed
qed

section \<open>The claims about the update of one machine\<close>

text \<open>
  Claim C2 against the code. The program means to leave Windows guests alone, but its
  guard compares the reported guest type with the one text \<^verbatim>\<open>Windows\<close>, which no Windows
  variant equals. A powered-off machine that reports \<^verbatim>\<open>Windows 10 (64-bit)\<close> is started,
  gets the probes and the update command in its guest, is powered off, and is reported as
  updated.
\<close>

theorem update_starts_windows_variant:
  "power_state windows_guest machine [] = Inr ''poweroff''
   \<and> os_type windows_guest machine [] = Inr ''Windows 10 (64-bit)''
   \<and> update windows_guest machine quiet [] =
     Some (Inr True,
       [Exec ''VBoxManage showvminfo 1-2-3-4-5 --machinereadable'',
        Exec ''VBoxManage startvm 1-2-3-4-5'', Sleep 60,
        Exec (guest_line windows_guest machine quiet ''which apt''),
        Exec (guest_line windows_guest machine quiet ''which snap''),
        Exec (guest_line windows_guest machine quiet
               (get_update_command \<lparr>apt = True, snap = True\<rparr> quiet)),
        Exec ''VBoxManage controlvm 1-2-3-4-5 acpipowerbutton'', Sleep 30,
        Exec ''VBoxManage showvminfo 1-2-3-4-5 --machinereadable''])
   \<and> map_option fst (update_and_report windows_guest machine quiet []) = Some (Inr Updated)"
  by code_simp

text \<open>
  Where the guard does fire: when the machine reports a power state and that state is not
  \<^verbatim>\<open>poweroff\<close>, or the state is reported and the guest type is the text \<^verbatim>\<open>Windows\<close> itself,
  \<^verbatim>\<open>update\<close> returns \<^verbatim>\<open>False\<close> and the query of the machine information is the only
  command that was run.
\<close>

lemma update_stops_where_guard_fires:
  assumes "power_state w vm tr = Inr state"
      and "state \<noteq> ''poweroff'' \<or> os_type w vm tr = Inr ''Windows''"
  shows "update w vm args tr = Some (Inr False, tr @ [Exec (vbox_line w (showvminfo vm))])
       \<and> update_and_report w vm args tr =
           Some (Inr Failed,
                 print_if_verbose args ''Update failed''
                   (tr @ [Exec (vbox_line w (showvminfo vm))]))"
  using boot_skip[OF assms, of args]
  by (simp add: update_def update_and_report_def outcome_of_def)

text \<open>
  Claim C3. The completion loop runs no command: when it is entered, its result is fixed
  by the response it was given. With the sentinel in the response it ends at the first
  check, with no wait; without it, it ends at the twenty-first pass, after twenty checks
  each followed by a wait of 30, with \<open>error_detected\<close> set. In \<^verbatim>\<open>update\<close>, after a dispatch
  that was accepted, the trace goes from the events of the dispatch loop to the power
  button with nothing but narration between them when the sentinel is in the response,
  and with the twenty waits when it is not.
\<close>

theorem completion_reads_last_response:
  "completion_loop r False 0 tr =
     (if py_in flag r then (False, 1, tr) else (True, 21, tr @ replicate 20 (Sleep 30)))
   \<and> (dispatch_loop w vm args False 0 response
         (print_if_verbose args ''Waiting to run update command'' tr0) = (False, n, r, tr1) \<longrightarrow>
       update_stages w vm args response tr0 =
         (if py_in flag r
          then (False,
                print_if_verbose args ''Shutting down machine''
                  (print_if_verbose args ''Update completed''
                    (print_if_verbose args ''Waiting for update to finish''
                      (print_if_verbose args ''Update command run'' tr1))) @
                [Exec (vbox_line w (acpipowerbutton vm)), Sleep 30])
          else (True,
                print_if_verbose args ''Shutting down machine''
                  (print_if_verbose args ''Update timed out''
                    (print_if_verbose args ''Waiting for update to finish''
                      (print_if_verbose args ''Update command run'' tr1) @
                     replicate 20 (Sleep 30))) @
                [Exec (vbox_line w (acpipowerbutton vm)), Sleep 30])))"
  using completion_loop_from[of 0 r tr]
    update_stages_after_dispatch[of w vm args response tr0 n r tr1]
  by (simp del: completion_loop.simps dispatch_loop.simps)

theorem completion_reads_last_response_witness:
  "update_stages ready_guest machine quiet ''started'' [] =
     (False,
      [Exec (guest_line ready_guest machine quiet ''which apt''),
       Exec (guest_line ready_guest machine quiet ''which snap''),
       Exec (guest_line ready_guest machine quiet
              (get_update_command \<lparr>apt = True, snap = True\<rparr> quiet)),
       Exec (vbox_line ready_guest (acpipowerbutton machine)),
       Sleep 30])
   \<and> update_stages silent_guest machine quiet ''started'' [] =
     (True,
      [Exec (guest_line silent_guest machine quiet ''which apt''),
       Exec (guest_line silent_guest machine quiet ''which snap''),
       Exec (guest_line silent_guest machine quiet
              (get_update_command \<lparr>apt = True, snap = True\<rparr> quiet))] @
      replicate 20 (Sleep 30) @
      [Exec (vbox_line silent_guest (acpipowerbutton machine)),
       Sleep 30])"
proof -
  have q: "print_if_verbose quiet m tr = tr" for m tr
    by (simp add: print_if_verbose_def quiet_def options_def)
  have d1: "dispatch_loop ready_guest machine quiet False 0 ''started''
      (print_if_verbose quiet ''Waiting to run update command'' []) =
      (False, 1, flag @ newline,
       [Exec (guest_line ready_guest machine quiet ''which apt''),
        Exec (guest_line ready_guest machine quiet ''which snap''),
        Exec (guest_line ready_guest machine quiet
               (get_update_command \<lparr>apt = True, snap = True\<rparr> quiet))])"
    by code_simp
  have d2: "dispatch_loop silent_guest machine quiet False 0 ''started''
      (print_if_verbose quiet ''Waiting to run update command'' []) =
      (False, 1, ''Reading package lists...'',
       [Exec (guest_line silent_guest machine quiet ''which apt''),
        Exec (guest_line silent_guest machine quiet ''which snap''),
        Exec (guest_line silent_guest machine quiet
               (get_update_command \<lparr>apt = True, snap = True\<rparr> quiet))])"
    by code_simp
  have f1: "py_in flag (flag @ newline)"
    by code_simp
  have f2: "\<not> py_in flag ''Reading package lists...''"
    by code_simp
  from completion_reads_last_response[of _ _ ready_guest machine quiet "''started''" "[]" 1,
        THEN conjunct2, rule_format, OF d1]
       completion_reads_last_response[of _ _ silent_guest machine quiet "''started''" "[]" 1,
        THEN conjunct2, rule_format, OF d2]
  show ?thesis
    by (simp only: f1 f2 if_True if_False q append_Cons append_Nil)
qed

text \<open>
  Claim C4. Whatever the tool answers, the events of one machine hold at most five
  dispatches of the update command: this holds for the stages from the acknowledged start
  to the power button and for a whole \<^verbatim>\<open>update\<close> that ends. The completion loop makes at
  most twenty-one passes, the twenty-first without a check, and at most twenty checks:
  every check that does not find the sentinel is followed by one wait of 30, and only the
  check that ends the loop without a timeout is not.
\<close>

theorem dispatch_and_completion_bounded:
  "(\<exists>new. snd (update_stages w vm args response tr1) = tr1 @ new \<and>
          length (filter (is_update_dispatch w vm args) new) \<le> 5)
   \<and> (\<forall>res tr'. update w vm args tr = Some (res, tr') \<longrightarrow>
         (\<exists>new. tr' = tr @ new \<and> length (filter (is_update_dispatch w vm args) new) \<le> 5))
   \<and> (\<exists>e' n' k. completion_loop r e 0 tr2 = (e', n', tr2 @ replicate k (Sleep 30)) \<and>
          n' \<le> 21 \<and> k + (if e' then 0 else 1) \<le> 20)"
proof (intro conjI allI impI)
  show "\<exists>new. snd (update_stages w vm args response tr1) = tr1 @ new \<and>
          length (filter (is_update_dispatch w vm args) new) \<le> 5"
    by (rule update_stages_dispatches)
next
  fix res tr'
  assume "update w vm args tr = Some (res, tr')"
  then show "\<exists>new. tr' = tr @ new \<and> length (filter (is_update_dispatch w vm args) new) \<le> 5"
    by (rule update_dispatches)
next
  show "\<exists>e' n' k. completion_loop r e 0 tr2 = (e', n', tr2 @ replicate k (Sleep 30)) \<and>
          n' \<le> 21 \<and> k + (if e' then 0 else 1) \<le> 20"
  proof (cases e)
    case True
    then have "completion_loop r e 0 tr2 = (True, 0, tr2 @ replicate 0 (Sleep 30))"
      by (simp add: completion_loop.simps)
    then show ?thesis by force
  next
    case False
    show ?thesis
    proof (cases "py_in flag r")
      case True
      then have "completion_loop r e 0 tr2 = (False, 1, tr2 @ replicate 0 (Sleep 30))"
        using completion_loop_from[of 0 r tr2] False by simp
      then show ?thesis by force
    next
      case F: False
      then have "completion_loop r e 0 tr2 = (True, 21, tr2 @ replicate 20 (Sleep 30))"
        using completion_loop_from[of 0 r tr2] False by simp
      then show ?thesis by force
    qed
  qed
qed

theorem dispatch_and_completion_bounded_witness:
  "length (filter (is_update_dispatch failing_guest machine options)
      (snd (update_stages failing_guest machine options ''started'' []))) = 5
   \<and> length (filter (is_update_dispatch failing_guest machine options)
      (snd (update_stages failing_guest machine options ''started'' []))) \<le> 5
   \<and> completion_loop ''not yet'' False 0 [] = (True, 21, replicate 20 (Sleep 30))"
proof -
  have a: "length (filter (is_update_dispatch failing_guest machine options)
      (snd (update_stages failing_guest machine options ''started'' []))) = 5"
    by code_simp
  have c: "completion_loop ''not yet'' False 0 [] = (True, 21, replicate 20 (Sleep 30))"
    by code_simp
  from dispatch_and_completion_bounded[of failing_guest machine options "''started''" "[]"]
  have "length (filter (is_update_dispatch failing_guest machine options)
      (snd (update_stages failing_guest machine options ''started'' []))) \<le> 5"
    by auto
  with a c show ?thesis
    by blast
qed

text \<open>
  Claim C8. After an acknowledged start the stages end, whatever \<open>error_detected\<close> has
  become, with the command line \<^verbatim>\<open>controlvm <uuid> acpipowerbutton\<close> behind the binary of the
  tool, and the pause of 30. Then the power state is polled, by the command line
  \<^verbatim>\<open>showvminfo <uuid> --machinereadable\<close>, with a pause of 15 between polls and with no
  bound: when the first \<open>n\<close> polls report another state and the next reports \<^verbatim>\<open>poweroff\<close>,
  \<^verbatim>\<open>update\<close> returns after exactly those polls, for every \<open>n\<close>; when no poll ever reports
  \<^verbatim>\<open>poweroff\<close>, \<^verbatim>\<open>update\<close> never returns; and whenever \<^verbatim>\<open>update\<close> returns a value, its
  last command was a poll that reported \<^verbatim>\<open>poweroff\<close>.
\<close>

theorem shutdown_always_sent_and_wait_unbounded:
  assumes boot: "check_and_boot w vm args tr = (Next response, tr1)"
      and stages: "update_stages w vm args response tr1 = (err, tr2)"
  shows \<open>(\<exists>pre. tr2 = pre @ [Exec (binary w @ '' controlvm '' @ uuid vm @ '' acpipowerbutton''),
                             Sleep 30])
     \<and> binary w = (if ''win32'' = platform w
                   then ''"C:/Program Files/Oracle/VirtualBox/VBoxManage.exe"''
                   else ''VBoxManage'')
     \<and> vbox_line w (showvminfo vm) = binary w @ '' showvminfo '' @ uuid vm @ '' --machinereadable''
     \<and> (\<forall>n. (\<forall>k<n. still_on w vm (polled w vm k tr2)) \<and>
             power_state w vm (polled w vm n tr2) = Inr ''poweroff'' \<longrightarrow>
           update w vm args tr =
             Some (Inr True, print_if_verbose args ''Shutdown complete''
                    (polled w vm n tr2 @ [Exec (vbox_line w (showvminfo vm))])))
     \<and> ((\<forall>k. still_on w vm (polled w vm k tr2)) \<longrightarrow> update w vm args tr = None)
     \<and> (\<forall>b tr'. update w vm args tr = Some (Inr b, tr') \<longrightarrow>
           (\<exists>n. power_state w vm (polled w vm n tr2) = Inr ''poweroff'' \<and>
                tr' = print_if_verbose args ''Shutdown complete''
                    (polled w vm n tr2 @ [Exec (vbox_line w (showvminfo vm))])))\<close>
proof (intro conjI allI impI)
  have "vbox_line w (acpipowerbutton vm) = binary w @ '' controlvm '' @ uuid vm @ '' acpipowerbutton''"
    by (simp add: vbox_line_def acpipowerbutton_def digit_value_def)
  then show "\<exists>pre. tr2 = pre @ [Exec (binary w @ '' controlvm '' @ uuid vm @ '' acpipowerbutton''),
                             Sleep 30]"
    using update_stages_button[of w vm args response tr1] stages by simp
next
  show \<open>binary w = (if ''win32'' = platform w
                   then ''"C:/Program Files/Oracle/VirtualBox/VBoxManage.exe"''
                   else ''VBoxManage'')\<close>
    by (simp add: binary_def get_host_os_def)
next
  show "vbox_line w (showvminfo vm) = binary w @ '' showvminfo '' @ uuid vm @ '' --machinereadable''"
    by (simp add: vbox_line_def showvminfo_def digit_value_def)
next
  fix n
  assume "(\<forall>k<n. still_on w vm (polled w vm k tr2)) \<and>
             power_state w vm (polled w vm n tr2) = Inr ''poweroff''"
  then have "wait_for_poweroff w vm tr2 =
     Some (Inr (), polled w vm n tr2 @ [Exec (vbox_line w (showvminfo vm))])"
    by (intro wait_off) simp_all
  then show "update w vm args tr =
             Some (Inr True, print_if_verbose args ''Shutdown complete''
                    (polled w vm n tr2 @ [Exec (vbox_line w (showvminfo vm))]))"
    by (simp add: update_after_boot[OF boot stages])
next
  assume "\<forall>k. still_on w vm (polled w vm k tr2)"
  then have "wait_for_poweroff w vm tr2 = None"
    by (rule wait_never)
  then show "update w vm args tr = None"
    by (simp add: update_after_boot[OF boot stages])
next
  fix b tr'
  assume u: "update w vm args tr = Some (Inr b, tr')"
  then obtain y where y: "wait_for_poweroff w vm tr2 = Some y"
    by (cases "wait_for_poweroff w vm tr2") (simp_all add: update_after_boot[OF boot stages])
  obtain res t where yt: "y = (res, t)"
    by (cases y)
  from u y yt have res: "res = Inr ()"
    and tr': "tr' = print_if_verbose args ''Shutdown complete'' t"
    by (cases res; simp add: update_after_boot[OF boot stages])+
  from wait_result[OF y] obtain n where n:
    "\<not> still_on w vm (polled w vm n tr2)"
    "t = polled w vm n tr2 @ [Exec (vbox_line w (showvminfo vm))]"
    "res = (case power_state w vm (polled w vm n tr2) of Inl e \<Rightarrow> Inl e | Inr s \<Rightarrow> Inr ())"
    unfolding off_after_def yt by auto
  from n(1,3) res have "power_state w vm (polled w vm n tr2) = Inr ''poweroff''"
    by (cases "power_state w vm (polled w vm n tr2)") (simp_all add: still_on_def)
  with n(2) tr' show "\<exists>n. power_state w vm (polled w vm n tr2) = Inr ''poweroff'' \<and>
                tr' = print_if_verbose args ''Shutdown complete''
                    (polled w vm n tr2 @ [Exec (vbox_line w (showvminfo vm))])"
    by blast
qed

theorem shutdown_always_sent_and_wait_unbounded_witness:
  \<open>check_and_boot slow_shutdown machine quiet [] =
     (Next ''VM "web" has been successfully started.'', take 3 after_stages)
   \<and> update_stages slow_shutdown machine quiet ''VM "web" has been successfully started.''
       (take 3 after_stages) = (False, after_stages)
   \<and> drop 6 after_stages = [Exec ''VBoxManage controlvm 1-2-3-4-5 acpipowerbutton'', Sleep 30]
   \<and> power_state slow_shutdown machine (polled slow_shutdown machine 0 after_stages) =
       Inr ''running''
   \<and> power_state slow_shutdown machine (polled slow_shutdown machine 1 after_stages) =
       Inr ''running''
   \<and> power_state slow_shutdown machine (polled slow_shutdown machine 2 after_stages) =
       Inr ''poweroff''
   \<and> update slow_shutdown machine quiet [] =
       Some (Inr True,
         after_stages @
         [Exec ''VBoxManage showvminfo 1-2-3-4-5 --machinereadable'', Sleep 15,
          Exec ''VBoxManage showvminfo 1-2-3-4-5 --machinereadable'', Sleep 15,
          Exec ''VBoxManage showvminfo 1-2-3-4-5 --machinereadable''])\<close>
proof -
  have boot: \<open>check_and_boot slow_shutdown machine quiet [] =
     (Next ''VM "web" has been successfully started.'', take 3 after_stages)\<close>
    by code_simp
  have stages: \<open>update_stages slow_shutdown machine quiet
       ''VM "web" has been successfully started.'' (take 3 after_stages) = (False, after_stages)\<close>
    by code_simp
  have button: "drop 6 after_stages =
      [Exec ''VBoxManage controlvm 1-2-3-4-5 acpipowerbutton'', Sleep 30]"
    by code_simp
  have p0: "power_state slow_shutdown machine (polled slow_shutdown machine 0 after_stages) =
      Inr ''running''"
    by code_simp
  have p1: "power_state slow_shutdown machine (polled slow_shutdown machine 1 after_stages) =
      Inr ''running''"
    by code_simp
  have p2: "power_state slow_shutdown machine (polled slow_shutdown machine 2 after_stages) =
      Inr ''poweroff''"
    by code_simp
  have on: "\<forall>k<2. still_on slow_shutdown machine (polled slow_shutdown machine k after_stages)"
    using p0 p1 by (simp add: still_on_def less_Suc_eq numeral_2_eq_2)
  have q: "print_if_verbose quiet m tr = tr" for m tr
    by (simp add: print_if_verbose_def quiet_def options_def)
  have polls: "polled slow_shutdown machine 2 after_stages @
        [Exec (vbox_line slow_shutdown (showvminfo machine))] =
      after_stages @
         [Exec ''VBoxManage showvminfo 1-2-3-4-5 --machinereadable'', Sleep 15,
          Exec ''VBoxManage showvminfo 1-2-3-4-5 --machinereadable'', Sleep 15,
          Exec ''VBoxManage showvminfo 1-2-3-4-5 --machinereadable'']"
    by code_simp
  from shutdown_always_sent_and_wait_unbounded[OF boot stages,
        THEN conjunct2, THEN conjunct2, THEN conjunct2, THEN conjunct1, rule_format, of 2] on p2
  have "update slow_shutdown machine quiet [] =
     Some (Inr True, polled slow_shutdown machine 2 after_stages @
        [Exec (vbox_line slow_shutdown (showvminfo machine))])"
    by (simp add: q)
  then have "update slow_shutdown machine quiet [] =
       Some (Inr True,
         after_stages @
         [Exec ''VBoxManage showvminfo 1-2-3-4-5 --machinereadable'', Sleep 15,
          Exec ''VBoxManage showvminfo 1-2-3-4-5 --machinereadable'', Sleep 15,
          Exec ''VBoxManage showvminfo 1-2-3-4-5 --machinereadable''])"
    by (simp only: polls)
  with boot stages button p0 p1 p2 show ?thesis
    by blast
qed

text \<open>
  Claim C1 against the code. After an acknowledged start \<^verbatim>\<open>update\<close> ends with
  \<^verbatim>\<open>return True\<close> whatever \<open>error_detected\<close> is. With a guest that answers every dispatch
  with the error marker, and with a guest that accepts the dispatch and never shows the
  sentinel, the program narrates the failed command or the timeout, and then the outcome
  of the machine is \<open>Updated\<close> and \<^verbatim>\<open>main\<close> narrates a successful update.
\<close>

theorem update_reports_success_after_failed_stages:
  "map_option (\<lambda>(r, tr). (r, narration tr))
     (update_and_report failing_guest machine options []) =
   Some (Inr Updated, [''Starting machine'', ''Machine started successfully'',
     ''Waiting to run update command'', ''Update command failed'',
     ''Waiting for update to finish'', ''Update timed out'', ''Shutting down machine'',
     ''Shutdown complete'', ''Update successful''])
   \<and> map_option (\<lambda>(r, tr). (r, narration tr))
     (update_and_report silent_guest machine options []) =
   Some (Inr Updated, [''Starting machine'', ''Machine started successfully'',
     ''Waiting to run update command'', ''Update command run'',
     ''Waiting for update to finish'', ''Update timed out'', ''Shutting down machine'',
     ''Shutdown complete'', ''Update successful''])"
  by code_simp

end
